theory Spec2Isabelle
  imports Main "HOL-Library.Word" "HOL-Library.Multiset"
begin

unbundle bit_operations_syntax

section \<open>Data model of mid2seq.c\<close>

type_synonym u8 = "8 word"
type_synonym u16 = "16 word"
type_synonym u32 = "32 word"

text \<open>\<^verbatim>\<open>SeqTempoEvent\<close>: a tempo entry of the SEQ file.\<close>

record SeqTempoEvent =
  step_time :: u32
  mspb :: u32

text \<open>\<^verbatim>\<open>TrackEvent\<close>: a MIDI event as kept in memory between the passes.\<close>

record TrackEvent =
  absolute_time :: u32
  status :: u8
  data1 :: u8
  data2 :: u8
  gate_time :: u32

section \<open>The comparison function handed to qsort\<close>

definition compare_events :: "TrackEvent \<Rightarrow> TrackEvent \<Rightarrow> int" where
  "compare_events eventA eventB =
     (if absolute_time eventA < absolute_time eventB then - 1
      else if absolute_time eventA > absolute_time eventB then 1
      else
        let typeA = status eventA AND 0xF0;
            typeB = status eventB AND 0xF0
        in if (typeA = 0x80 \<or> (typeA = 0x90 \<and> data2 eventA = 0)) \<and>
              (typeB \<noteq> 0x80 \<and> (typeB \<noteq> 0x90 \<or> data2 eventB \<noteq> 0)) then - 1
           else if (typeB = 0x80 \<or> (typeB = 0x90 \<and> data2 eventB = 0)) \<and>
              (typeA \<noteq> 0x80 \<and> (typeA \<noteq> 0x90 \<or> data2 eventA \<noteq> 0)) then 1
           else 0)"

section \<open>Output side: the chunked delta and gate encoding\<close>

text \<open>
  The output file is the list of bytes written so far; \<^verbatim>\<open>fputc\<close> appends one byte.
  Every loop of the encoder has the shape
  \<^verbatim>\<open>while (*v >= step) { fputc(opcode, file); *v -= step; }\<close>
  with a non-zero constant \<open>step\<close>; \<open>emit_while\<close> is that loop. The test
  \<open>step \<noteq> 0\<close> is never false at a call site; it only makes the recursion terminate
  for every argument.
\<close>

function emit_while :: "u8 \<Rightarrow> u32 \<Rightarrow> u8 list \<times> u32 \<Rightarrow> u8 list \<times> u32" where
  "emit_while opcode step (file, v) =
     (if step \<noteq> 0 \<and> step \<le> v then emit_while opcode step (file @ [opcode], v - step)
      else (file, v))"
  by pat_completeness auto
termination
proof (relation "measure (\<lambda>(opcode, step, file, v). unat v)")
  show "wf (measure (\<lambda>(opcode, step, file, v). unat v))"
    by simp
next
  fix opcode :: u8 and step v :: u32 and out :: "u8 list"
  assume a: "step \<noteq> 0 \<and> step \<le> v"
  then have "unat step \<le> unat v" and "0 < unat step"
    by (simp_all add: word_le_nat_alt unat_gt_0)
  moreover from a have "unat (v - step) = unat v - unat step"
    by (simp add: unat_sub)
  ultimately show "((opcode, step, out @ [opcode], v - step), (opcode, step, out, v))
      \<in> measure (\<lambda>(opcode, step, file, v). unat v)"
    by simp
qed

declare emit_while.simps [simp del]

text \<open>\<^verbatim>\<open>write_large_delta_events\<close>: Step Extend opcodes 0x8F, 0x8E, 0x8D.\<close>

definition write_large_delta_events :: "u8 list \<Rightarrow> u32 \<Rightarrow> u8 list \<times> u32" where
  "write_large_delta_events file delta =
     emit_while 0x8D 0x200 (emit_while 0x8E 0x800 (emit_while 0x8F 0x1000 (file, delta)))"

text \<open>\<^verbatim>\<open>write_extended_gate\<close>: Gate Extend opcodes 0x8B, 0x8A, 0x89, 0x88.\<close>

definition write_extended_gate :: "u8 list \<Rightarrow> u32 \<Rightarrow> u8 list \<times> u32" where
  "write_extended_gate file gate =
     emit_while 0x88 0x200 (emit_while 0x89 0x800
       (emit_while 0x8A 0x1000 (emit_while 0x8B 0x2000 (file, gate))))"

text \<open>
  The Note On branch of the track writer (after the large delta opcodes): gate
  opcodes, control byte with the two overflow flags, key, velocity, gate byte, delta
  byte. \<^verbatim>\<open>fputc\<close> of a 32-bit value writes its low byte.
\<close>

definition write_note_on :: "u8 list \<Rightarrow> TrackEvent \<Rightarrow> u8 \<Rightarrow> u32 \<Rightarrow> u8 list" where
  "write_note_on file ev channel delta_time =
     (case write_extended_gate file (gate_time ev) of (file1, gate1) \<Rightarrow>
        let ctl0 = channel;
            ctl1 = (if delta_time \<ge> 256 then ctl0 OR 0x20 else ctl0);
            delta2 = (if delta_time \<ge> 256 then delta_time - 256 else delta_time);
            ctl2 = (if gate1 \<ge> 256 then ctl1 OR 0x40 else ctl1);
            gate2 = (if gate1 \<ge> 256 then gate1 - 256 else gate1)
        in file1 @ [ctl2, data1 ev, data2 ev, ucast gate2, ucast delta2])"

text \<open>The loop of the other branch that writes one 0x8C per 256 ticks left.\<close>

definition write_delta_extend :: "u8 list \<times> u32 \<Rightarrow> u8 list \<times> u32" where
  "write_delta_extend = emit_while 0x8C 256"

text \<open>
  The branch for every other event type: 0x8C opcodes, the status byte, the data
  bytes the type asks for, the delta byte.
\<close>

definition write_other :: "u8 list \<Rightarrow> TrackEvent \<Rightarrow> u8 \<Rightarrow> u32 \<Rightarrow> u8 list" where
  "write_other file ev event_type delta_time =
     (case write_delta_extend (file, delta_time) of (file1, delta1) \<Rightarrow>
        let file2 = file1 @ [status ev];
            file3 =
              (if event_type = 0xB0 \<or> event_type = 0xA0 then file2 @ [data1 ev, data2 ev]
               else if event_type = 0xE0 then file2 @ [data2 ev]
               else file2 @ [data1 ev])
        in file3 @ [ucast delta1])"

text \<open>
  One iteration of the loop that writes the normal track. The state is the file and
  \<^verbatim>\<open>last_event_time\<close>; an event whose status is 0x00 is skipped.
\<close>

definition write_track_event :: "u8 list \<times> u32 \<Rightarrow> TrackEvent \<Rightarrow> u8 list \<times> u32" where
  "write_track_event s ev =
     (case s of (file, last_event_time) \<Rightarrow>
        if status ev = 0x00 then (file, last_event_time)
        else
          (case write_large_delta_events file (absolute_time ev - last_event_time) of
             (file1, delta_time) \<Rightarrow>
               let event_type = status ev AND 0xF0;
                   channel = status ev AND 0x0F
               in if event_type = 0x90
                  then (write_note_on file1 ev channel delta_time, absolute_time ev)
                  else (write_other file1 ev event_type delta_time, absolute_time ev)))"

text \<open>The normal track: every event in order, then the end marker 0x83.\<close>

definition write_normal_track :: "u8 list \<Rightarrow> TrackEvent list \<Rightarrow> u8 list" where
  "write_normal_track file events = fst (foldl write_track_event (file, 0) events) @ [0x83]"


section \<open>Reading the chunk encoding back\<close>

text \<open>
  The program only writes SEQ data. The reading side below is the one the format
  description gives: ticks per Step Extend opcode, ticks per Gate Extend opcode, and
  a Note On record read front to back (delta opcodes, gate opcodes, control byte with
  flag 0x20 for 256 more delta ticks and flag 0x40 for 256 more gate ticks, key,
  velocity, gate byte, delta byte). The result of \<open>decode_note_on\<close> is the pair
  (delta, gate).
\<close>

definition delta_opcode_ticks :: "u8 \<Rightarrow> nat" where
  "delta_opcode_ticks b =
     (if b = 0x8F then 4096 else if b = 0x8E then 2048 else if b = 0x8D then 512
      else if b = 0x8C then 256 else 0)"

definition gate_opcode_ticks :: "u8 \<Rightarrow> nat" where
  "gate_opcode_ticks b =
     (if b = 0x8B then 8192 else if b = 0x8A then 4096 else if b = 0x89 then 2048
      else if b = 0x88 then 512 else 0)"

fun decode_note_on :: "u8 list \<Rightarrow> (nat \<times> nat) option" where
  "decode_note_on [] = None"
| "decode_note_on (b # bs) =
     (if b = 0x8F \<or> b = 0x8E \<or> b = 0x8D
      then map_option (\<lambda>(d, g). (delta_opcode_ticks b + d, g)) (decode_note_on bs)
      else if b = 0x8B \<or> b = 0x8A \<or> b = 0x89 \<or> b = 0x88
      then map_option (\<lambda>(d, g). (d, gate_opcode_ticks b + g)) (decode_note_on bs)
      else (case bs of
              [key, velocity, gate_byte, delta_byte] \<Rightarrow>
                Some ((if b AND 0x20 \<noteq> 0 then 256 else 0) + unat delta_byte,
                      (if b AND 0x40 \<noteq> 0 then 256 else 0) + unat gate_byte)
            | _ \<Rightarrow> None))"

section \<open>Input side: the stream and the variable-length quantity\<close>

text \<open>
  The input \<^verbatim>\<open>FILE\<close>: its bytes, the position indicator and the end-of-file
  indicator. As in C, the indicator is set by a read that finds no byte, not by
  reading the last byte: \<^verbatim>\<open>fgetc\<close> then returns \<^verbatim>\<open>EOF\<close>, which is \<open>-1\<close>.
  \<^verbatim>\<open>ungetc\<close> is only called with the byte just read, so it steps the position back;
  \<^verbatim>\<open>fseek(file, n, SEEK_CUR)\<close> moves the position forward, also past the end, and
  clears the indicator.
\<close>

record midi_file =
  bytes :: "u8 list"
  pos :: nat
  eof :: bool

definition fgetc :: "midi_file \<Rightarrow> int \<times> midi_file" where
  "fgetc f =
     (if pos f < length (bytes f) then (uint (bytes f ! pos f), f\<lparr>pos := pos f + 1\<rparr>)
      else (- 1, f\<lparr>eof := True\<rparr>))"

definition feof :: "midi_file \<Rightarrow> bool" where
  "feof f = eof f"

definition ungetc :: "midi_file \<Rightarrow> midi_file" where
  "ungetc f = f\<lparr>pos := pos f - 1, eof := False\<rparr>"

definition fseek_cur :: "midi_file \<Rightarrow> nat \<Rightarrow> midi_file" where
  "fseek_cur f n = f\<lparr>pos := pos f + n, eof := False\<rparr>"

text \<open>
  The loop of \<^verbatim>\<open>read_variable_length\<close>. \<open>byte\<close> is a \<^verbatim>\<open>uint8_t\<close>: the value
  \<^verbatim>\<open>fgetc\<close> returned, cut to 8 bits.
\<close>

function read_variable_length_loop :: "u32 \<Rightarrow> u8 \<Rightarrow> midi_file \<Rightarrow> u32 \<times> midi_file" where
  "read_variable_length_loop val byte f =
     (if byte AND 0x80 \<noteq> 0 then
        (if feof f then (val, f)
         else read_variable_length_loop
                (push_bit 7 val OR ucast ((word_of_int (fst (fgetc f)) :: u8) AND 0x7F))
                (word_of_int (fst (fgetc f))) (snd (fgetc f)))
      else (val, f))"
  by pat_completeness auto
termination
  by (relation "measure (\<lambda>(val, byte, f). (length (bytes f) - pos f) + (if eof f then 0 else 1))")
    (auto simp: fgetc_def feof_def)

declare read_variable_length_loop.simps [simp del]

definition read_variable_length :: "midi_file \<Rightarrow> u32 \<times> midi_file" where
  "read_variable_length f =
     (if feof f then (0, f)
      else
        let byte = (word_of_int (fst (fgetc f)) :: u8);
            val = ucast (byte AND 0x7F)
        in read_variable_length_loop val byte (snd (fgetc f)))"

section \<open>Pass 1: reading the track\<close>

text \<open>
  The state of the reading loop. \<open>events\<close> holds the \<^verbatim>\<open>event_count\<close> entries
  committed so far and \<open>tempo_events\<close> the \<^verbatim>\<open>tempo_count\<close> recorded tempo events.
\<close>

record reader =
  midi :: midi_file
  events :: "TrackEvent list"
  tempo_events :: "SeqTempoEvent list"
  last_status :: u8
  current_time :: u32
  last_tempo_time :: u32

text \<open>
  \<^verbatim>\<open>for (int i = 0; i < length; ++i) mspb = (mspb << 8) | fgetc(midi_file);\<close>
  The \<^verbatim>\<open>int\<close> from \<^verbatim>\<open>fgetc\<close> is converted to 32 bits before the OR, so \<^verbatim>\<open>EOF\<close>
  sets every bit.
\<close>

fun read_mspb :: "nat \<Rightarrow> u32 \<Rightarrow> midi_file \<Rightarrow> u32 \<times> midi_file" where
  "read_mspb 0 m f = (m, f)"
| "read_mspb (Suc n) m f =
     read_mspb n (push_bit 8 m OR word_of_int (fst (fgetc f))) (snd (fgetc f))"

text \<open>
  The body of \<^verbatim>\<open>if (status == 0xFF)\<close>. \<open>meta_length\<close> is the source's
  \<^verbatim>\<open>uint8_t length\<close>, which receives the 32-bit result of \<^verbatim>\<open>read_variable_length\<close>.
\<close>

definition read_meta_event :: "reader \<Rightarrow> reader" where
  "read_meta_event r =
     (let meta_type = (word_of_int (fst (fgetc (midi r))) :: u8);
          f1 = snd (fgetc (midi r));
          meta_length = (ucast (fst (read_variable_length f1)) :: u8);
          f2 = snd (read_variable_length f1)
      in if meta_type = 0x51 \<and> length (tempo_events r) < 255 then
           r\<lparr>midi := snd (read_mspb (unat meta_length) 0 f2),
             tempo_events := tempo_events r @
               [\<lparr>step_time = current_time r - last_tempo_time r,
                 mspb = fst (read_mspb (unat meta_length) 0 f2)\<rparr>],
             last_tempo_time := current_time r\<rparr>
         else r\<lparr>midi := fseek_cur f2 (unat meta_length)\<rparr>)"

text \<open>One iteration of the \<^verbatim>\<open>while (ftell(midi_file) < ...)\<close> loop.\<close>

definition read_track_event :: "reader \<Rightarrow> reader" where
  "read_track_event r =
     (let delta_time = fst (read_variable_length (midi r));
          f1 = snd (read_variable_length (midi r));
          now = current_time r + delta_time;
          first_byte = (word_of_int (fst (fgetc f1)) :: u8);
          running = (first_byte AND 0x80 = 0);
          f2 = (if running then ungetc (snd (fgetc f1)) else snd (fgetc f1));
          st = (if running then last_status r else first_byte);
          event_type = st AND 0xF0;
          r1 = r\<lparr>midi := f2, current_time := now\<rparr>;
          r2 =
            (if event_type = 0x90 \<or> event_type = 0x80 \<or> event_type = 0xB0 \<or>
                event_type = 0xA0 \<or> event_type = 0xE0 then
               r1\<lparr>midi := snd (fgetc (snd (fgetc f2))),
                  events := events r @
                    [\<lparr>absolute_time = now, status = st,
                      data1 = word_of_int (fst (fgetc f2)),
                      data2 = word_of_int (fst (fgetc (snd (fgetc f2)))),
                      gate_time = 0\<rparr>]\<rparr>
             else if event_type = 0xC0 \<or> event_type = 0xD0 then
               r1\<lparr>midi := snd (fgetc f2),
                  events := events r @
                    [\<lparr>absolute_time = now, status = st,
                      data1 = word_of_int (fst (fgetc f2)), data2 = 0, gate_time = 0\<rparr>]\<rparr>
             else if event_type = 0xF0 then
               (if st = 0xFF then read_meta_event r1 else r1)
             else r1)
      in r2\<lparr>last_status := st\<rparr>)"


text \<open>
  \<^verbatim>\<open>while (ftell(midi_file) < track_start_pos + track_length)\<close>. Nothing in the loop
  makes the position grow (a running-status byte is pushed back, a meta event of length
  0 is skipped by 0 bytes, and at the end of the file no read advances), so the loop
  need not end: \<open>None\<close> stands for a run that does not return.
\<close>

partial_function (option) read_track_loop :: "nat \<Rightarrow> reader \<Rightarrow> reader option" where
  "read_track_loop track_end r =
     (if pos (midi r) < track_end then read_track_loop track_end (read_track_event r)
      else Some r)"

declare read_track_loop.simps [code]

text \<open>
  Pass 1 as a whole, from the position \<^verbatim>\<open>track_start_pos\<close> behind the track chunk's
  header, with the variables as \<^verbatim>\<open>main\<close> initialises them.
\<close>

definition read_track :: "u8 list \<Rightarrow> nat \<Rightarrow> nat \<Rightarrow> reader option" where
  "read_track file_bytes track_start_pos track_length =
     read_track_loop (track_start_pos + track_length)
       \<lparr>midi = \<lparr>bytes = file_bytes, pos = track_start_pos, eof = False\<rparr>,
        events = [], tempo_events = [], last_status = 0, current_time = 0,
        last_tempo_time = 0\<rparr>"

section \<open>Pass 2: gate times\<close>

text \<open>
  \<^verbatim>\<open>int active_note_indices[16][128]\<close>, with \<open>None\<close> for \<open>-1\<close>. The table is kept
  the way the array lies in memory, as 2048 elements in a row: element
  \<^verbatim>\<open>[channel][key]\<close> is the one at position \<open>channel * 128 + key\<close>. The channel is a
  nibble, but the key is a whole data byte and the program uses it unchecked, so a key
  of 128 or more reaches into the row of the next channel: \<^verbatim>\<open>[0][200]\<close> is the
  element \<^verbatim>\<open>[1][72]\<close>. Only for channel 15 does such a key leave the array (position
  2048 or more): what the program reads or overwrites there is not determined by the
  C code, and the pass ends with \<open>Outside_Table\<close>.
\<close>

datatype error = Outside_Table

type_synonym note_table = "nat \<Rightarrow> nat option"

definition no_active_notes :: note_table where
  "no_active_notes = (\<lambda>slot. None)"

definition gate_step ::
  "nat \<Rightarrow> TrackEvent list \<times> note_table \<Rightarrow> error + TrackEvent list \<times> note_table" where
  "gate_step i s =
     (case s of (evs, active) \<Rightarrow>
        let event_type = status (evs ! i) AND 0xF0;
            channel = status (evs ! i) AND 0x0F;
            key = data1 (evs ! i);
            velocity = data2 (evs ! i);
            slot = unat channel * 128 + unat key
        in if event_type = 0x90 \<and> velocity > 0 then
             if 2048 \<le> slot then Inl Outside_Table
             else
               (case active slot of
                  Some prev_idx \<Rightarrow>
                    Inr (evs[prev_idx := (evs ! prev_idx)
                           \<lparr>gate_time :=
                              absolute_time (evs ! i) - absolute_time (evs ! prev_idx)\<rparr>],
                         active(slot := Some i))
                | None \<Rightarrow> Inr (evs, active(slot := Some i)))
           else if event_type = 0x80 \<or> (event_type = 0x90 \<and> velocity = 0) then
             if 2048 \<le> slot then Inl Outside_Table
             else
               (case active slot of
                  Some note_on_index \<Rightarrow>
                    let evs1 = evs[note_on_index := (evs ! note_on_index)
                          \<lparr>gate_time :=
                             absolute_time (evs ! i) - absolute_time (evs ! note_on_index)\<rparr>]
                    in Inr (evs1[i := (evs1 ! i)\<lparr>status := 0x00\<rparr>], active(slot := None))
                | None \<Rightarrow> Inr (evs, active))
           else Inr (evs, active))"

text \<open>The \<^verbatim>\<open>for\<close> loop over the indices \<open>0 .. event_count - 1\<close>.\<close>

fun gate_loop ::
  "nat list \<Rightarrow> TrackEvent list \<times> note_table \<Rightarrow> error + TrackEvent list \<times> note_table" where
  "gate_loop [] s = Inr s"
| "gate_loop (i # rest) s =
     (case gate_step i s of Inl err \<Rightarrow> Inl err | Inr s' \<Rightarrow> gate_loop rest s')"

definition calc_gates :: "TrackEvent list \<Rightarrow> error + TrackEvent list" where
  "calc_gates evs =
     (case gate_loop [0..<length evs] (evs, no_active_notes) of
        Inl err \<Rightarrow> Inl err
      | Inr s \<Rightarrow> Inr (fst s))"

section \<open>Pass 3: the call of qsort\<close>

text \<open>
  \<^verbatim>\<open>qsort\<close> belongs to the C library, not to this program. It is taken by its
  contract: the array afterwards holds the same elements, in ascending order of the
  comparison function; where two elements compare equal, their order is left open.
\<close>

definition qsort_result :: "TrackEvent list \<Rightarrow> TrackEvent list \<Rightarrow> bool" where
  "qsort_result before after \<longleftrightarrow>
     mset after = mset before \<and> sorted_wrt (\<lambda>a b. compare_events a b \<le> 0) after"

text \<open>The events the comparison function treats as note-terminating.\<close>

definition terminating :: "TrackEvent \<Rightarrow> bool" where
  "terminating e \<longleftrightarrow>
     status e AND 0xF0 = 0x80 \<or> (status e AND 0xF0 = 0x90 \<and> data2 e = 0)"

text \<open>
  A sort is stable when, for every event, the events comparing equal to it come out
  in the order they went in.
\<close>

definition keeps_equal_order :: "TrackEvent list \<Rightarrow> TrackEvent list \<Rightarrow> bool" where
  "keeps_equal_order before after \<longleftrightarrow>
     list_all (\<lambda>e. filter (\<lambda>x. compare_events x e = 0) after =
                   filter (\<lambda>x. compare_events x e = 0) before) before"

text \<open>
  The order the comparison function induces, as a number: events compare as their keys
  do (time first, then terminating events before the others).
\<close>

definition sort_key :: "TrackEvent \<Rightarrow> nat" where
  "sort_key e = 2 * unat (absolute_time e) + (if terminating e then 0 else 1)"

text \<open>
  The position in the table that a Note On or Note Off event looks up, and the events
  that look up a given position.
\<close>

definition note_slot :: "TrackEvent \<Rightarrow> nat" where
  "note_slot e = unat (status e AND 0x0F) * 128 + unat (data1 e)"

definition uses_slot :: "nat \<Rightarrow> TrackEvent \<Rightarrow> bool" where
  "uses_slot n e \<longleftrightarrow>
     (status e AND 0xF0 = 0x90 \<or> status e AND 0xF0 = 0x80) \<and> note_slot e = n"

section \<open>Pass 4: the tempo track\<close>

text \<open>The search loop with its \<^verbatim>\<open>break\<close>; 0 when no event qualifies.\<close>

fun first_musical_event_time :: "TrackEvent list \<Rightarrow> u32" where
  "first_musical_event_time [] = 0"
| "first_musical_event_time (e # es) =
     (if status e \<noteq> 0xFF then absolute_time e else first_musical_event_time es)"

definition total_song_time :: "TrackEvent list \<Rightarrow> u32" where
  "total_song_time evs =
     (if length evs > 0 then absolute_time (evs ! (length evs - 1)) else 0)"

definition synthesize_tempo :: "SeqTempoEvent list \<Rightarrow> TrackEvent list \<Rightarrow> SeqTempoEvent list" where
  "synthesize_tempo tempos evs =
     (if length tempos > 0 then
        let m = mspb (tempos ! 0)
        in [\<lparr>step_time = first_musical_event_time evs, mspb = m\<rparr>,
            \<lparr>step_time = total_song_time evs - first_musical_event_time evs, mspb = m\<rparr>]
      else tempos)"

section \<open>Writing the SEQ file\<close>

definition swap16 :: "u16 \<Rightarrow> u16" where
  "swap16 val = push_bit 8 val OR drop_bit 8 val"

definition swap32 :: "u32 \<Rightarrow> u32" where
  "swap32 val =
     push_bit 24 val OR (push_bit 8 val AND 0x00ff0000) OR (drop_bit 8 val AND 0x0000ff00)
       OR drop_bit 24 val"

text \<open>
  \<^verbatim>\<open>fwrite\<close> copies the object as it lies in memory. The program swaps every
  integer before writing it, which gives the big-endian file it wants on a
  little-endian machine; that machine is the one modelled: low byte first.
\<close>

definition fwrite16 :: "u16 \<Rightarrow> u8 list" where
  "fwrite16 v = [ucast v, ucast (drop_bit 8 v)]"

definition fwrite32 :: "u32 \<Rightarrow> u8 list" where
  "fwrite32 v = [ucast v, ucast (drop_bit 8 v), ucast (drop_bit 16 v), ucast (drop_bit 24 v)]"

definition write_bank_header :: "u8 list" where
  "write_bank_header = fwrite16 (swap16 1) @ fwrite32 (swap32 6)"

text \<open>
  The four fields of \<^verbatim>\<open>SeqHeader\<close>, each a \<^verbatim>\<open>uint16_t\<close>, from \<^verbatim>\<open>division\<close> and
  the \<^verbatim>\<open>int tempo_count\<close>.
\<close>

definition write_seq_header :: "u16 \<Rightarrow> nat \<Rightarrow> u8 list" where
  "write_seq_header division tempo_count =
     fwrite16 (swap16 division) @
     fwrite16 (swap16 (of_nat tempo_count)) @
     fwrite16 (swap16 (of_nat (8 + tempo_count * 8))) @
     fwrite16 (if tempo_count > 0 then swap16 (8 + 1 * 8) else 0)"

definition write_tempo_track :: "SeqTempoEvent list \<Rightarrow> u8 list" where
  "write_tempo_track tempos =
     concat (map (\<lambda>t. fwrite32 (swap32 (step_time t)) @ fwrite32 (swap32 (mspb t))) tempos)"

text \<open>
  Everything \<^verbatim>\<open>main\<close> writes, from the division, the recorded tempo events and the
  sorted events.
\<close>

definition write_seq_file :: "u16 \<Rightarrow> SeqTempoEvent list \<Rightarrow> TrackEvent list \<Rightarrow> u8 list" where
  "write_seq_file division tempos sorted_events =
     (let tempo_track = synthesize_tempo tempos sorted_events
      in write_normal_track
           (write_bank_header @ write_seq_header division (length tempo_track)
              @ write_tempo_track tempo_track)
           sorted_events)"

text \<open>Two bytes read as a big-endian number, as the driver reads the header.\<close>

definition be16 :: "u8 list \<Rightarrow> nat" where
  "be16 bs = unat (bs ! 0) * 256 + unat (bs ! 1)"


text \<open>
  A big-endian number accumulated from bytes the way the Set Tempo loop does it:
  shift by 8, OR the next byte in.
\<close>

definition accumulate_bytes :: "u8 list \<Rightarrow> u32" where
  "accumulate_bytes bs = foldl (\<lambda>m b. push_bit 8 m OR ucast b) 0 bs"

section \<open>Three MIDI files\<close>

text \<open>
  The header chunk of a format 0 file with one track and a division of 96 ticks
  (14 bytes). With the 8 bytes of the track chunk's header behind it, the track data
  of each file below starts at position 22.
\<close>

definition midi_header :: "u8 list" where
  "midi_header = [0x4D, 0x54, 0x68, 0x64, 0, 0, 0, 6, 0, 0, 0, 1, 0, 0x60]"

text \<open>
  A track of 16 bytes: at tick 0 a Note On for channel 1, key 72; at tick 10 a Note On
  for channel 0 with the key byte 200; at tick 96 the Note Off for channel 1, key 72;
  End of Track.
\<close>

definition aliased_key_file :: "u8 list" where
  "aliased_key_file = midi_header @ [0x4D, 0x54, 0x72, 0x6B, 0, 0, 0, 16] @
     [0x00, 0x91, 0x48, 0x64,  0x0A, 0x90, 0xC8, 0x64,  0x56, 0x81, 0x48, 0x00,
      0x00, 0xFF, 0x2F, 0x00]"

text \<open>
  A track of 12 bytes: at tick 0 a Note On for channel 0 with the key byte 200; at
  tick 10 a Note Off for channel 1, key 72, a key of channel 1 that no Note On has
  started; End of Track.
\<close>

definition aliased_orphan_file :: "u8 list" where
  "aliased_orphan_file = midi_header @ [0x4D, 0x54, 0x72, 0x6B, 0, 0, 0, 12] @
     [0x00, 0x90, 0xC8, 0x64,  0x0A, 0x81, 0x48, 0x00,  0x00, 0xFF, 0x2F, 0x00]"

text \<open>
  A track of 265 bytes with two events: a sequencer-specific meta event (type 0x7F)
  whose length field 0x82 0x00 says 256 and whose 256 data bytes begin with
  00 FF 51 03 07 A1 20, and End of Track. There is no Set Tempo event in it.
\<close>

definition long_meta_file :: "u8 list" where
  "long_meta_file = midi_header @ [0x4D, 0x54, 0x72, 0x6B, 0, 0, 0x01, 0x09] @
     [0x00, 0xFF, 0x7F, 0x82, 0x00] @
     ([0x00, 0xFF, 0x51, 0x03, 0x07, 0xA1, 0x20,  0x00, 0xFF, 0x7F, 0x81, 0x74]
        @ replicate 244 0x00) @
     [0x00, 0xFF, 0x2F, 0x00]"

section \<open>The chunk encoding reads back\<close>

lemma emit_while_file:
  "step \<noteq> 0 \<Longrightarrow> fst (emit_while opc step (f, v)) = f @ replicate (unat v div unat step) opc"
proof (induction opc step "(f, v)" arbitrary: f v rule: emit_while.induct)
  case (1 opc step f v)
  show ?case
  proof (cases "step \<le> v")
    case True
    then have le: "unat step \<le> unat v" by (simp add: word_le_nat_alt)
    from 1(2) have pos: "0 < unat step" by (simp add: unat_gt_0)
    have sub: "unat (v - step) = unat v - unat step" using True by (simp add: unat_sub)
    have "unat v div unat step = Suc ((unat v - unat step) div unat step)"
      using le pos by (simp add: le_div_geq)
    then show ?thesis
      using 1 True sub by (simp add: emit_while.simps [of opc step f v] replicate_append_same)
  next
    case False
    then have "unat v < unat step" by (simp add: word_le_nat_alt)
    then show ?thesis using False by (simp add: emit_while.simps [of opc step f v])
  qed
qed

lemma emit_while_rest:
  "step \<noteq> 0 \<Longrightarrow> unat (snd (emit_while opc step (f, v))) = unat v mod unat step"
proof (induction opc step "(f, v)" arbitrary: f v rule: emit_while.induct)
  case (1 opc step f v)
  show ?case
  proof (cases "step \<le> v")
    case True
    then have le: "unat step \<le> unat v" by (simp add: word_le_nat_alt)
    have sub: "unat (v - step) = unat v - unat step" using True by (simp add: unat_sub)
    have "unat v mod unat step = (unat v - unat step) mod unat step"
      using le by (simp add: le_mod_geq)
    then show ?thesis
      using 1 True sub by (simp add: emit_while.simps [of opc step f v])
  next
    case False
    then have "unat v < unat step" by (simp add: word_le_nat_alt)
    then show ?thesis using False by (simp add: emit_while.simps [of opc step f v])
  qed
qed


lemma emit_while_fst:
  "step \<noteq> 0 \<Longrightarrow>
     fst (emit_while opc step s) = fst s @ replicate (unat (snd s) div unat step) opc"
  using emit_while_file [of step opc "fst s" "snd s"] by simp

lemma emit_while_snd:
  "step \<noteq> 0 \<Longrightarrow> unat (snd (emit_while opc step s)) = unat (snd s) mod unat step"
  using emit_while_rest [of step opc "fst s" "snd s"] by simp


lemma large_delta_fst:
  "fst (write_large_delta_events f d) =
     f @ replicate (unat d div 4096) 0x8F @ replicate (unat d mod 4096 div 2048) 0x8E
       @ replicate (unat d mod 4096 mod 2048 div 512) 0x8D"
  by (simp add: write_large_delta_events_def emit_while_fst emit_while_snd)

lemma large_delta_snd:
  "unat (snd (write_large_delta_events f d)) = unat d mod 4096 mod 2048 mod 512"
  by (simp add: write_large_delta_events_def emit_while_snd)


lemma delta_chunks_sum:
  "(x::nat) div 4096 * 4096 + (x mod 4096 div 2048 * 2048 +
     (x mod 4096 mod 2048 div 512 * 512)) + x mod 4096 mod 2048 mod 512 = x"
  by (simp add: add.assoc)

lemma gate_chunks_sum:
  "(g::nat) div 8192 * 8192 + (g mod 8192 div 4096 * 4096 +
     (g mod 8192 mod 4096 div 2048 * 2048 +
       (g mod 8192 mod 4096 mod 2048 div 512 * 512 + g mod 8192 mod 4096 mod 2048 mod 512))) = g"
  by simp

lemma large_delta_sum:
  "sum_list (map delta_opcode_ticks (drop (length f) (fst (write_large_delta_events f d))))
     + unat (snd (write_large_delta_events f d)) = unat d"
proof -
  have "unat d div 4096 * 4096 + (unat d mod 4096 div 2048 * 2048 +
          (unat d mod 4096 mod 2048 div 512 * 512)) + unat d mod 4096 mod 2048 mod 512 = unat d"
    by (rule delta_chunks_sum)
  then show ?thesis
    by (simp add: large_delta_fst large_delta_snd sum_list_replicate delta_opcode_ticks_def)
qed

lemma extended_gate_fst:
  "fst (write_extended_gate f g) =
     f @ replicate (unat g div 8192) 0x8B @ replicate (unat g mod 8192 div 4096) 0x8A
       @ replicate (unat g mod 8192 mod 4096 div 2048) 0x89
       @ replicate (unat g mod 8192 mod 4096 mod 2048 div 512) 0x88"
  by (simp add: write_extended_gate_def emit_while_fst emit_while_snd)

lemma extended_gate_snd:
  "unat (snd (write_extended_gate f g)) = unat g mod 8192 mod 4096 mod 2048 mod 512"
  by (simp add: write_extended_gate_def emit_while_snd)

lemma delta_extend_fst:
  "fst (write_delta_extend s) = fst s @ replicate (unat (snd s) div 256) 0x8C"
  by (simp add: write_delta_extend_def emit_while_fst)

lemma delta_extend_snd:
  "unat (snd (write_delta_extend s)) = unat (snd s) mod 256"
  by (simp add: write_delta_extend_def emit_while_snd)



lemma ctl_and_masks:
  fixes s :: u8
  shows "(s AND 0x0F) AND 0x20 = 0" "(s AND 0x0F) AND 0x40 = 0" "(s AND 0x0F) AND 0x80 = 0"
    "((s AND 0x0F) OR 0x20) AND 0x20 = 0x20" "((s AND 0x0F) OR 0x20) AND 0x40 = 0"
    "((s AND 0x0F) OR 0x20) AND 0x80 = 0"
    "((s AND 0x0F) OR 0x40) AND 0x20 = 0" "((s AND 0x0F) OR 0x40) AND 0x40 = 0x40"
    "((s AND 0x0F) OR 0x40) AND 0x80 = 0"
    "(((s AND 0x0F) OR 0x20) OR 0x40) AND 0x20 = 0x20"
    "(((s AND 0x0F) OR 0x20) OR 0x40) AND 0x40 = 0x40"
    "(((s AND 0x0F) OR 0x20) OR 0x40) AND 0x80 = 0"
  by (simp_all add: and.assoc bit.conj_disj_distrib2)

lemma decode_step_delta:
  "b = 0x8F \<or> b = 0x8E \<or> b = 0x8D \<Longrightarrow>
     decode_note_on (b # bs) =
       map_option (\<lambda>(d, g). (delta_opcode_ticks b + d, g)) (decode_note_on bs)"
  by simp

lemma decode_step_gate:
  "b = 0x8B \<or> b = 0x8A \<or> b = 0x89 \<or> b = 0x88 \<Longrightarrow>
     decode_note_on (b # bs) =
       map_option (\<lambda>(d, g). (d, gate_opcode_ticks b + g)) (decode_note_on bs)"
  by auto

lemma decode_step_tail:
  "c AND 0x80 = 0 \<Longrightarrow>
     decode_note_on [c, k, v, gb, db] =
       Some ((if c AND 0x20 \<noteq> 0 then 256 else 0) + unat db,
             (if c AND 0x40 \<noteq> 0 then 256 else 0) + unat gb)"
proof -
  assume a: "c AND 0x80 = 0"
  have "c \<noteq> 0x8F" "c \<noteq> 0x8E" "c \<noteq> 0x8D" "c \<noteq> 0x8B" "c \<noteq> 0x8A" "c \<noteq> 0x89" "c \<noteq> 0x88"
    using a by auto
  then show ?thesis by simp
qed

lemma decode_delta_prefix:
  assumes "b = 0x8F \<or> b = 0x8E \<or> b = 0x8D"
  shows "decode_note_on (replicate n b @ rest) =
       map_option (\<lambda>(d, g). (n * delta_opcode_ticks b + d, g)) (decode_note_on rest)"
proof (induction n)
  case 0
  show ?case by (simp add: split_def option.map_ident del: decode_note_on.simps)
next
  case (Suc n)
  show ?case
    using assms
    by (simp add: decode_step_delta Suc option.map_comp comp_def split_def add.assoc
          del: decode_note_on.simps)
qed

lemma decode_gate_prefix:
  assumes "b = 0x8B \<or> b = 0x8A \<or> b = 0x89 \<or> b = 0x88"
  shows "decode_note_on (replicate n b @ rest) =
       map_option (\<lambda>(d, g). (d, n * gate_opcode_ticks b + g)) (decode_note_on rest)"
proof (induction n)
  case 0
  show ?case by (simp add: split_def option.map_ident del: decode_note_on.simps)
next
  case (Suc n)
  show ?case
    using assms
    by (simp add: decode_step_gate Suc option.map_comp comp_def split_def add.assoc
          del: decode_note_on.simps)
qed



lemma low_byte:
  fixes x :: u32
  shows "unat (ucast x :: u8) = unat x mod 256"
  by (simp add: unsigned_ucast_eq take_bit_eq_mod)

lemma sub_256:
  fixes x :: u32
  assumes "256 \<le> x"
  shows "unat (x - 256) = unat x - 256"
  using assms by (simp add: unat_sub)

lemma ge_256_iff:
  fixes x :: u32
  shows "256 \<le> x \<longleftrightarrow> 256 \<le> unat x"
  by (simp add: word_le_nat_alt)

lemma note_on_tail_decode:
  fixes d1 g1 :: u32 and s :: u8
  assumes d1: "unat d1 < 512" and g1: "unat g1 < 512"
  defines "ctl1 \<equiv> (if d1 \<ge> 256 then (s AND 0x0F) OR 0x20 else s AND 0x0F)"
  defines "ctl2 \<equiv> (if g1 \<ge> 256 then ctl1 OR 0x40 else ctl1)"
  shows "decode_note_on [ctl2, k, v, ucast (if g1 \<ge> 256 then g1 - 256 else g1),
            ucast (if d1 \<ge> 256 then d1 - 256 else d1)] = Some (unat d1, unat g1)"
proof -
  have hi: "ctl2 AND 0x80 = 0"
    by (simp add: ctl2_def ctl1_def ctl_and_masks)
  have fd: "ctl2 AND 0x20 \<noteq> 0 \<longleftrightarrow> d1 \<ge> 256"
    by (simp add: ctl2_def ctl1_def ctl_and_masks)
  have fg: "ctl2 AND 0x40 \<noteq> 0 \<longleftrightarrow> g1 \<ge> 256"
    by (simp add: ctl2_def ctl1_def ctl_and_masks)
  have bd: "(if d1 \<ge> 256 then 256 else 0) + unat (ucast (if d1 \<ge> 256 then d1 - 256 else d1) :: u8)
      = unat d1"
    using d1 by (simp add: low_byte sub_256 ge_256_iff)
  have bg: "(if g1 \<ge> 256 then 256 else 0) + unat (ucast (if g1 \<ge> 256 then g1 - 256 else g1) :: u8)
      = unat g1"
    using g1 by (simp add: low_byte sub_256 ge_256_iff)
  show ?thesis
    unfolding decode_step_tail [OF hi] using bd bg fd fg by simp
qed

lemma note_on_roundtrip:
  "decode_note_on (drop (length f)
       (write_note_on (fst (write_large_delta_events f d)) ev (status ev AND 0x0F)
          (snd (write_large_delta_events f d))))
     = Some (unat d, unat (gate_time ev))"
proof -
  define f1 where "f1 = fst (write_large_delta_events f d)"
  define d1 where "d1 = snd (write_large_delta_events f d)"
  define fg where "fg = fst (write_extended_gate f1 (gate_time ev))"
  define g1 where "g1 = snd (write_extended_gate f1 (gate_time ev))"
  define n8F where "n8F = unat d div 4096"
  define n8E where "n8E = unat d mod 4096 div 2048"
  define n8D where "n8D = unat d mod 4096 mod 2048 div 512"
  define g where "g = unat (gate_time ev)"
  define n8B where "n8B = g div 8192"
  define n8A where "n8A = g mod 8192 div 4096"
  define n89 where "n89 = g mod 8192 mod 4096 div 2048"
  define n88 where "n88 = g mod 8192 mod 4096 mod 2048 div 512"
  define tail where "tail =
    [(if g1 \<ge> 256 then (if d1 \<ge> 256 then (status ev AND 0x0F) OR 0x20 else status ev AND 0x0F) OR 0x40
      else (if d1 \<ge> 256 then (status ev AND 0x0F) OR 0x20 else status ev AND 0x0F)),
     data1 ev, data2 ev, ucast (if g1 \<ge> 256 then g1 - 256 else g1),
     ucast (if d1 \<ge> 256 then d1 - 256 else d1)]"
  have d1_eq: "unat d1 = unat d mod 4096 mod 2048 mod 512"
    by (simp add: d1_def large_delta_snd)
  have g1_eq: "unat g1 = g mod 8192 mod 4096 mod 2048 mod 512"
    by (simp add: g1_def g_def extended_gate_snd)
  have f1_eq: "f1 = f @ replicate n8F 0x8F @ replicate n8E 0x8E @ replicate n8D 0x8D"
    by (simp add: f1_def large_delta_fst n8F_def n8E_def n8D_def)
  have fg_eq: "fg = f1 @ replicate n8B 0x8B @ replicate n8A 0x8A @ replicate n89 0x89
      @ replicate n88 0x88"
    by (simp add: fg_def extended_gate_fst n8B_def n8A_def n89_def n88_def g_def)
  have out: "write_note_on f1 ev (status ev AND 0x0F) d1 = fg @ tail"
    unfolding write_note_on_def split_def Let_def fg_def g1_def tail_def by (rule refl)
  have "unat d1 < 512" "unat g1 < 512"
    by (simp_all add: d1_eq g1_eq)
  then have tl: "decode_note_on tail = Some (unat d1, unat g1)"
    unfolding tail_def by (rule note_on_tail_decode)
  have "decode_note_on (drop (length f) (fg @ tail)) =
      Some (n8F * 4096 + (n8E * 2048 + (n8D * 512 + unat d1)),
            n8B * 8192 + (n8A * 4096 + (n89 * 2048 + (n88 * 512 + unat g1))))"
    by (simp add: fg_eq f1_eq decode_delta_prefix decode_gate_prefix tl
          delta_opcode_ticks_def gate_opcode_ticks_def del: decode_note_on.simps)
  moreover have "n8F * 4096 + (n8E * 2048 + (n8D * 512 + unat d1)) = unat d"
    unfolding n8F_def n8E_def n8D_def d1_eq using delta_chunks_sum [of "unat d"] by simp
  moreover have "n8B * 8192 + (n8A * 4096 + (n89 * 2048 + (n88 * 512 + unat g1))) = g"
    unfolding n8B_def n8A_def n89_def n88_def g1_eq by (rule gate_chunks_sum)
  ultimately show ?thesis
    using out by (simp add: f1_def d1_def g_def)
qed


lemma other_roundtrip:
  "(let s1 = write_large_delta_events f d;
        s2 = write_delta_extend s1;
        out = write_other (fst s1) ev event_type (snd s1)
    in take (length (fst s2)) out = fst s2 \<and>
       sum_list (map delta_opcode_ticks (drop (length f) (fst s2))) + unat (last out) = unat d)"
proof -
  define s1 where "s1 = write_large_delta_events f d"
  define s2 where "s2 = write_delta_extend s1"
  have s2_fst: "fst s2 = fst s1 @ replicate (unat (snd s1) div 256) 0x8C"
    by (simp add: s2_def delta_extend_fst)
  have s2_snd: "unat (snd s2) = unat (snd s1) mod 256"
    by (simp add: s2_def delta_extend_snd)
  have out: "\<exists>mid. write_other (fst s1) ev event_type (snd s1) = fst s2 @ mid @ [ucast (snd s2)]"
    by (simp add: write_other_def split_def Let_def s2_def)
  then obtain mid where o: "write_other (fst s1) ev event_type (snd s1) = fst s2 @ mid @ [ucast (snd s2)]"
    by blast
  have lst: "unat (last (write_other (fst s1) ev event_type (snd s1))) = unat (snd s1) mod 256"
    by (simp add: o low_byte s2_snd)
  have "sum_list (map delta_opcode_ticks (drop (length f) (fst s1))) + unat (snd s1) = unat d"
    unfolding s1_def by (rule large_delta_sum)
  moreover have "drop (length f) (fst s2) =
      drop (length f) (fst s1) @ replicate (unat (snd s1) div 256) 0x8C"
    by (simp add: s2_fst s1_def large_delta_fst)
  ultimately have "sum_list (map delta_opcode_ticks (drop (length f) (fst s2)))
      + unat (snd s1) mod 256 = unat d"
    by (simp add: sum_list_replicate delta_opcode_ticks_def)
  then show ?thesis
    using o lst by (simp add: Let_def s1_def [symmetric] s2_def [symmetric])
qed

text \<open>
  C3. Round trip of the chunk encoding, for every 32-bit delta and gate value. A Note
  On record written after the large delta opcodes reads back, by the opcode weights,
  the two control flags and the two final bytes, to exactly the delta and the gate
  that were encoded. For any other event the bytes written up to the status byte are
  the file followed by the chunk opcodes, and 4096 per 0x8F, 2048 per 0x8E, 512 per
  0x8D and 256 per 0x8C among them, plus the final delta byte, give the delta.
\<close>

theorem chunk_encoding_roundtrip:
  "decode_note_on (drop (length file)
       (write_note_on (fst (write_large_delta_events file delta)) ev (status ev AND 0x0F)
          (snd (write_large_delta_events file delta))))
     = Some (unat delta, unat (gate_time ev)) \<and>
   (let s1 = write_large_delta_events file delta;
        s2 = write_delta_extend s1;
        out = write_other (fst s1) ev' event_type (snd s1)
    in take (length (fst s2)) out = fst s2 \<and>
       sum_list (map delta_opcode_ticks (drop (length file) (fst s2))) + unat (last out)
         = unat delta)"
  using note_on_roundtrip [of "file" delta ev] other_roundtrip [of "file" delta ev' event_type]
  by blast


theorem chunk_encoding_roundtrip_witness:
  "write_note_on (fst (write_large_delta_events [] 600))
      \<lparr>absolute_time = 600, status = 0x93, data1 = 60, data2 = 100, gate_time = 9000\<rparr> 0x03
      (snd (write_large_delta_events [] 600)) =
     [0x8D, 0x8B, 0x88, 0x43, 60, 100, 40, 88] \<and>
   decode_note_on [0x8D, 0x8B, 0x88, 0x43, 60, 100, 40, 88] = Some (600, 9000) \<and>
   write_other (fst (write_large_delta_events [] 900))
      \<lparr>absolute_time = 900, status = 0xB0, data1 = 7, data2 = 90, gate_time = 0\<rparr> 0xB0
      (snd (write_large_delta_events [] 900)) = [0x8D, 0x8C, 0xB0, 7, 90, 132] \<and>
   delta_opcode_ticks 0x8D + delta_opcode_ticks 0x8C + 132 = 900"
proof -
  let ?on = "\<lparr>absolute_time = 600, status = 0x93, data1 = 60, data2 = 100, gate_time = 9000\<rparr>"
  let ?cc = "\<lparr>absolute_time = 900, status = 0xB0, data1 = 7, data2 = 90, gate_time = 0\<rparr>"
  have 1: "write_note_on (fst (write_large_delta_events [] 600)) ?on 0x03
      (snd (write_large_delta_events [] 600)) = [0x8D, 0x8B, 0x88, 0x43, 60, 100, 40, 88]"
    by code_simp
  have 2: "write_other (fst (write_large_delta_events [] 900)) ?cc 0xB0
      (snd (write_large_delta_events [] 900)) = [0x8D, 0x8C, 0xB0, 7, 90, 132]"
    by code_simp
  have 3: "status ?on AND 0x0F = 0x03"
    by simp
  have "decode_note_on [0x8D, 0x8B, 0x88, 0x43, 60, 100, 40, 88] = Some (600, 9000)"
    using chunk_encoding_roundtrip [of "[]" 600 ?on ?cc "0xB0"] unfolding 3 1 by simp
  then show ?thesis
    using 1 2 by (simp add: delta_opcode_ticks_def)
qed

section \<open>The SEQ header\<close>

lemma swap16_low:
  "(ucast (swap16 v) :: u8) = ucast (drop_bit 8 v)"
  by (rule bit_word_eqI) (auto simp: swap16_def bit_simps)

lemma swap16_high:
  "(ucast (drop_bit 8 (swap16 v)) :: u8) = ucast v"
  by (rule bit_word_eqI) (auto simp: swap16_def bit_simps)

lemma low_byte16:
  fixes x :: u16
  shows "unat (ucast x :: u8) = unat x mod 256"
  by (simp add: unsigned_ucast_eq take_bit_eq_mod)

lemma be16_fwrite16_swap16:
  "be16 (fwrite16 (swap16 v) @ rest) = unat v"
proof -
  have "unat v < 65536"
    using unsigned_less [of v] by simp
  then have "unat v div 256 < 256"
    by simp
  moreover have "unat (drop_bit 8 v) = unat v div 256"
    unfolding unat_drop_bit_eq by (simp add: drop_bit_eq_div)
  ultimately have "unat (ucast (drop_bit 8 v) :: u8) = unat v div 256"
    unfolding low_byte16 by simp
  then show ?thesis
    by (simp add: be16_def fwrite16_def swap16_low swap16_high low_byte16)
qed

lemma write_track_event_extends:
  "\<exists>bs. fst (write_track_event (f, l) ev) = f @ bs"
proof -
  have a: "\<exists>bs. fst (write_large_delta_events f d) = f @ bs" for d
    by (simp add: large_delta_fst)
  have b: "\<exists>bs. write_note_on f1 ev c d = f1 @ bs" for f1 c d
    by (simp add: write_note_on_def split_def Let_def extended_gate_fst)
  have c: "\<exists>bs. write_other f1 ev t d = f1 @ bs" for f1 t d
    by (simp add: write_other_def split_def Let_def delta_extend_fst)
  show ?thesis
  proof (cases "status ev = 0")
    case True
    then show ?thesis by (simp add: write_track_event_def)
  next
    case False
    obtain bs1 where 1: "fst (write_large_delta_events f (absolute_time ev - l)) = f @ bs1"
      using a by blast
    show ?thesis
    proof (cases "status ev AND 0xF0 = 0x90")
      case True
      obtain bs2 where "write_note_on (f @ bs1) ev (status ev AND 0x0F)
          (snd (write_large_delta_events f (absolute_time ev - l))) = (f @ bs1) @ bs2"
        using b by blast
      then show ?thesis
        using False True 1 by (simp add: write_track_event_def split_def Let_def)
    next
      case nt: False
      obtain bs2 where "write_other (f @ bs1) ev (status ev AND 0xF0)
          (snd (write_large_delta_events f (absolute_time ev - l))) = (f @ bs1) @ bs2"
        using c by blast
      then show ?thesis
        using False nt 1 by (simp add: write_track_event_def split_def Let_def)
    qed
  qed
qed

lemma write_events_extend:
  "\<exists>bs. fst (foldl write_track_event (f, l) evs) = f @ bs"
proof (induction evs arbitrary: f l)
  case Nil
  show ?case by simp
next
  case (Cons ev evs)
  obtain f1 l1 where s: "write_track_event (f, l) ev = (f1, l1)"
    by (cases "write_track_event (f, l) ev")
  obtain bs1 where 1: "f1 = f @ bs1"
    using write_track_event_extends [of f l ev] s by auto
  obtain bs2 where "fst (foldl write_track_event (f1, l1) evs) = f1 @ bs2"
    using Cons.IH by blast
  then show ?case using s 1 by simp
qed

lemma write_normal_track_extends:
  "\<exists>bs. write_normal_track f evs = f @ bs"
  using write_events_extend [of f 0 evs] by (auto simp: write_normal_track_def)

lemma synthesize_tempo_length:
  "length (synthesize_tempo tempos evs) = (if tempos = [] then 0 else 2)"
  by (simp add: synthesize_tempo_def Let_def)

lemma fwrite16_length: "length (fwrite16 v) = 2"
  by (simp add: fwrite16_def)

lemma bank_header_length: "length write_bank_header = 6"
  by (simp add: write_bank_header_def fwrite16_def fwrite32_def)

lemma be16_fwrite16_zero: "be16 (fwrite16 0 @ rest) = 0"
  by (simp add: be16_def fwrite16_def)

lemma seq_header_decoded:
  "be16 (write_seq_header division n @ rest) = unat division \<and>
   be16 (drop 2 (write_seq_header division n @ rest)) = unat (of_nat n :: u16) \<and>
   be16 (drop 4 (write_seq_header division n @ rest)) = unat (of_nat (8 + n * 8) :: u16) \<and>
   be16 (drop 6 (write_seq_header division n @ rest)) = (if n > 0 then 16 else 0)"
  by (simp add: write_seq_header_def fwrite16_length be16_fwrite16_swap16 be16_fwrite16_zero
        del: of_nat_add of_nat_mult)

text \<open>
  The SEQ header starts at byte 6 of the output. Read as big-endian numbers, its four
  fields are the MIDI division, the final tempo count, 8 + 8 * count, and 16 when the
  count is positive, 0 otherwise. The count is 0 when the reader recorded no tempo
  event and 2 otherwise.
\<close>

lemma seq_header_fields:
  "(let out = write_seq_file division tempos evs;
        n = length (synthesize_tempo tempos evs)
    in be16 (drop 6 out) = unat division \<and>
       be16 (drop 8 out) = n \<and>
       be16 (drop 10 out) = 8 + n * 8 \<and>
       be16 (drop 12 out) = (if n > 0 then 16 else 0) \<and>
       n = (if tempos = [] then 0 else 2))"
proof -
  define n where "n = length (synthesize_tempo tempos evs)"
  have n: "n = (if tempos = [] then 0 else 2)"
    by (simp add: n_def synthesize_tempo_length)
  obtain rest where out: "write_seq_file division tempos evs =
      write_bank_header @ write_seq_header division n @ rest"
    using write_normal_track_extends
      [of "write_bank_header @ write_seq_header division n
            @ write_tempo_track (synthesize_tempo tempos evs)" evs]
    by (auto simp: write_seq_file_def Let_def n_def)
  have d: "drop (6 + k) (write_seq_file division tempos evs) =
      drop k (write_seq_header division n @ rest)" for k
    by (simp add: out bank_header_length)
  have "be16 (drop 6 (write_seq_file division tempos evs)) = unat division"
    using d [of 0] seq_header_decoded [of division n rest] by simp
  moreover have "be16 (drop 8 (write_seq_file division tempos evs)) = unat (of_nat n :: u16)"
    using d [of 2] seq_header_decoded [of division n rest] by simp
  moreover have "be16 (drop 10 (write_seq_file division tempos evs))
      = unat (of_nat (8 + n * 8) :: u16)"
    using d [of 4] seq_header_decoded [of division n rest] by simp
  moreover have "be16 (drop 12 (write_seq_file division tempos evs)) = (if n > 0 then 16 else 0)"
    using d [of 6] seq_header_decoded [of division n rest] by simp
  moreover have "unat (of_nat n :: u16) = n" "unat (of_nat (8 + n * 8) :: u16) = 8 + n * 8"
    using n by (simp_all split: if_splits)
  ultimately show ?thesis
    using n by (simp add: Let_def n_def [symmetric])
qed

section \<open>The synthesized tempo track\<close>

lemma compare_events_le_time:
  "compare_events a b \<le> 0 \<Longrightarrow> absolute_time a \<le> absolute_time b"
  by (simp add: compare_events_def split: if_splits)

lemma first_musical_event_time_at:
  "i < length evs \<Longrightarrow> status (evs ! i) \<noteq> 0xFF \<Longrightarrow> \<forall>j<i. status (evs ! j) = 0xFF \<Longrightarrow>
     first_musical_event_time evs = absolute_time (evs ! i)"
proof (induction evs arbitrary: i)
  case Nil
  then show ?case by simp
next
  case (Cons e es)
  show ?case
  proof (cases i)
    case 0
    with Cons.prems show ?thesis by simp
  next
    case (Suc k)
    with Cons.prems have "status e = 0xFF" by auto
    moreover have "first_musical_event_time es = absolute_time (es ! k)"
      using Cons.prems Suc by (intro Cons.IH) auto
    ultimately show ?thesis using Suc by simp
  qed
qed

lemma total_song_time_last:
  "evs \<noteq> [] \<Longrightarrow> total_song_time evs = absolute_time (last evs)"
  by (simp add: total_song_time_def last_conv_nth)

lemma sorted_time_le_last:
  assumes "sorted_wrt (\<lambda>a b. compare_events a b \<le> 0) evs" and "i < length evs"
  shows "absolute_time (evs ! i) \<le> absolute_time (last evs)"
proof -
  from assms(2) have ne: "evs \<noteq> []" by auto
  show ?thesis
  proof (cases "i = length evs - 1")
    case True
    with ne show ?thesis by (simp add: last_conv_nth)
  next
    case False
    with assms(2) have "i < length evs - 1" "length evs - 1 < length evs" by auto
    with assms(1) have "compare_events (evs ! i) (evs ! (length evs - 1)) \<le> 0"
      by (simp add: sorted_wrt_iff_nth_less)
    then show ?thesis
      using ne by (auto simp: last_conv_nth dest: compare_events_le_time)
  qed
qed

text \<open>
  The tempo list made from what the reader recorded. With no recorded tempo event it
  is empty. With at least one (the first being \<open>t\<close>) it has exactly two entries, both
  with the mspb of \<open>t\<close>. Where \<open>i\<close> is the first event of the sorted list whose status
  is not 0xFF, entry 1 has that event's absolute time as step time and entry 2 the
  absolute time of the last event minus it; in a sorted list this difference does not
  wrap around.
\<close>

lemma tempo_track_two_segments:
  fixes evs :: "TrackEvent list" and t :: SeqTempoEvent and ts :: "SeqTempoEvent list"
  defines "out \<equiv> synthesize_tempo (t # ts) evs"
  shows "synthesize_tempo [] evs = [] \<and>
    length out = 2 \<and> mspb (out ! 0) = mspb t \<and> mspb (out ! 1) = mspb t \<and>
    (i < length evs \<and> status (evs ! i) \<noteq> 0xFF \<and> (\<forall>j<i. status (evs ! j) = 0xFF) \<longrightarrow>
       step_time (out ! 0) = absolute_time (evs ! i) \<and>
       step_time (out ! 1) = absolute_time (last evs) - absolute_time (evs ! i) \<and>
       (sorted_wrt (\<lambda>a b. compare_events a b \<le> 0) evs \<longrightarrow>
          unat (absolute_time (evs ! i)) \<le> unat (absolute_time (last evs)) \<and>
          unat (step_time (out ! 1)) =
            unat (absolute_time (last evs)) - unat (absolute_time (evs ! i))))"
proof -
  have a: "synthesize_tempo [] evs = []"
    by (simp add: synthesize_tempo_def)
  have b: "length out = 2 \<and> mspb (out ! 0) = mspb t \<and> mspb (out ! 1) = mspb t"
    by (simp add: out_def synthesize_tempo_def Let_def)
  have c: "step_time (out ! 0) = absolute_time (evs ! i) \<and>
       step_time (out ! 1) = absolute_time (last evs) - absolute_time (evs ! i) \<and>
       (sorted_wrt (\<lambda>a b. compare_events a b \<le> 0) evs \<longrightarrow>
          unat (absolute_time (evs ! i)) \<le> unat (absolute_time (last evs)) \<and>
          unat (step_time (out ! 1)) =
            unat (absolute_time (last evs)) - unat (absolute_time (evs ! i)))"
    if i: "i < length evs" and s: "status (evs ! i) \<noteq> 0xFF"
      and m: "\<forall>j<i. status (evs ! j) = 0xFF"
  proof -
    have ne: "evs \<noteq> []" using i by auto
    have f: "first_musical_event_time evs = absolute_time (evs ! i)"
      using i s m by (rule first_musical_event_time_at)
    have 1: "step_time (out ! 0) = absolute_time (evs ! i)"
      by (simp add: out_def synthesize_tempo_def Let_def f)
    have 2: "step_time (out ! 1) = absolute_time (last evs) - absolute_time (evs ! i)"
      using ne by (simp add: out_def synthesize_tempo_def Let_def f total_song_time_last)
    have 3: "unat (absolute_time (evs ! i)) \<le> unat (absolute_time (last evs)) \<and>
        unat (step_time (out ! 1)) =
          unat (absolute_time (last evs)) - unat (absolute_time (evs ! i))"
      if srt: "sorted_wrt (\<lambda>a b. compare_events a b \<le> 0) evs"
    proof -
      have le: "absolute_time (evs ! i) \<le> absolute_time (last evs)"
        using srt i by (rule sorted_time_le_last)
      then show ?thesis
        unfolding 2 by (simp add: unat_sub word_le_nat_alt)
    qed
    from 1 2 3 show ?thesis by blast
  qed
  from a b c show ?thesis by blast
qed

lemma tempo_track_two_segments_example:
  "synthesize_tempo [\<lparr>step_time = 0, mspb = 500000\<rparr>, \<lparr>step_time = 96, mspb = 400000\<rparr>]
     [\<lparr>absolute_time = 96, status = 0x90, data1 = 60, data2 = 100, gate_time = 480\<rparr>,
      \<lparr>absolute_time = 1000, status = 0xC0, data1 = 5, data2 = 0, gate_time = 0\<rparr>] ! 1 =
   \<lparr>step_time = 904, mspb = 500000\<rparr>"
proof -
  let ?evs = "[\<lparr>absolute_time = 96, status = 0x90, data1 = 60, data2 = 100, gate_time = 480\<rparr>,
      \<lparr>absolute_time = 1000, status = 0xC0, data1 = 5, data2 = 0, gate_time = 0\<rparr>]"
  have s: "sorted_wrt (\<lambda>a b. compare_events a b \<le> 0) ?evs"
    by (simp add: compare_events_def)
  have "step_time (synthesize_tempo [\<lparr>step_time = 0, mspb = 500000\<rparr>,
      \<lparr>step_time = 96, mspb = 400000\<rparr>] ?evs ! 1) = 904
    \<and> mspb (synthesize_tempo [\<lparr>step_time = 0, mspb = 500000\<rparr>,
      \<lparr>step_time = 96, mspb = 400000\<rparr>] ?evs ! 1) = 500000"
    using s tempo_track_two_segments [of ?evs "\<lparr>step_time = 0, mspb = 500000\<rparr>"
        "[\<lparr>step_time = 96, mspb = 400000\<rparr>]" 0]
    by simp
  then show ?thesis
    by (cases "synthesize_tempo [\<lparr>step_time = 0, mspb = 500000\<rparr>,
      \<lparr>step_time = 96, mspb = 400000\<rparr>] ?evs ! 1") simp
qed

section \<open>The reader: quantities and meta events\<close>

text \<open>
  C6. A stream that ends inside a quantity: the single byte 0x81 asks for a
  continuation byte. The bytes read give the value 1. The function returns 255: the
  failed read's \<^verbatim>\<open>EOF\<close>, cut to the byte 0xFF, is folded in as seven more bits
  before the end-of-file indicator is looked at.
\<close>

theorem truncated_quantity_takes_eof_bits:
  "read_variable_length \<lparr>bytes = [0x81], pos = 0, eof = False\<rparr> =
     (255, \<lparr>bytes = [0x81], pos = 1, eof = True\<rparr>)"
  by code_simp

text \<open>
  The 8-bit length at work: a text meta event (type 0x01) whose length field
  0x82 0x00 decodes to 256, followed by its 256 bytes of text, after a delta time of
  0. The event ends at position 261, but the reader stops at position 5: it has
  skipped 0 bytes.
\<close>

lemma long_meta_event_not_skipped:
  "fst (read_variable_length
          \<lparr>bytes = [0x00, 0xFF, 0x01, 0x82, 0x00] @ replicate 256 0x41, pos = 3, eof = False\<rparr>)
     = 256 \<and>
   pos (midi (read_track_event
     \<lparr>midi = \<lparr>bytes = [0x00, 0xFF, 0x01, 0x82, 0x00] @ replicate 256 0x41, pos = 0,
              eof = False\<rparr>,
      events = [], tempo_events = [], last_status = 0, current_time = 0,
      last_tempo_time = 0\<rparr>)) = 5"
  by code_simp

lemma word_of_int_uint_byte:
  fixes b :: u8
  shows "(word_of_int (uint b) :: u32) = ucast b"
  by (rule ucast_eq [symmetric])

lemma read_mspb_bytes:
  "pos f + n \<le> length (bytes f) \<Longrightarrow>
     read_mspb n m f =
       (foldl (\<lambda>m b. push_bit 8 m OR ucast b) m (take n (drop (pos f) (bytes f))),
        f\<lparr>pos := pos f + n\<rparr>)"
proof (induction n arbitrary: m f)
  case 0
  show ?case by simp
next
  case (Suc n)
  then have lt: "pos f < length (bytes f)" by simp
  have g: "fgetc f = (uint (bytes f ! pos f), f\<lparr>pos := pos f + 1\<rparr>)"
    using lt by (simp add: fgetc_def)
  have t: "take (Suc n) (drop (pos f) (bytes f)) =
      bytes f ! pos f # take n (drop (pos f + 1) (bytes f))"
    using lt by (simp add: Cons_nth_drop_Suc [symmetric])
  have "read_mspb n (push_bit 8 m OR ucast (bytes f ! pos f)) (f\<lparr>pos := pos f + 1\<rparr>) =
      (foldl (\<lambda>m b. push_bit 8 m OR ucast b) (push_bit 8 m OR ucast (bytes f ! pos f))
         (take n (drop (pos f + 1) (bytes f))), f\<lparr>pos := pos f + 1 + n\<rparr>)"
    using Suc.IH [of "f\<lparr>pos := pos f + 1\<rparr>" "push_bit 8 m OR ucast (bytes f ! pos f)"] Suc.prems
    by simp
  then show ?case
    by (simp add: g t word_of_int_uint_byte)
qed

lemma read_meta_event_eq:
  fixes r :: reader
  defines "meta_type \<equiv> (word_of_int (fst (fgetc (midi r))) :: u8)"
  defines "L \<equiv> fst (read_variable_length (snd (fgetc (midi r))))"
  defines "f2 \<equiv> snd (read_variable_length (snd (fgetc (midi r))))"
  shows "(\<not> (meta_type = 0x51 \<and> length (tempo_events r) < 255) \<longrightarrow>
            read_meta_event r = r\<lparr>midi := f2\<lparr>pos := pos f2 + unat L mod 256, eof := False\<rparr>\<rparr>) \<and>
         (meta_type = 0x51 \<and> length (tempo_events r) < 255 \<and>
            pos f2 + unat L mod 256 \<le> length (bytes f2) \<longrightarrow>
            read_meta_event r =
              r\<lparr>midi := f2\<lparr>pos := pos f2 + unat L mod 256\<rparr>,
                tempo_events := tempo_events r @
                  [\<lparr>step_time = current_time r - last_tempo_time r,
                    mspb = accumulate_bytes (take (unat L mod 256) (drop (pos f2) (bytes f2)))\<rparr>],
                last_tempo_time := current_time r\<rparr>)"
  by (auto simp: read_meta_event_def Let_def low_byte fseek_cur_def read_mspb_bytes
        accumulate_bytes_def meta_type_def L_def f2_def)

text \<open>
  C9. Where \<open>L\<close> is the decoded length field of a meta event, the reader works with
  \<open>L mod 256\<close>. A meta event that is not recorded as a tempo event is skipped by
  moving the position \<open>L mod 256\<close> bytes on. A Set Tempo event recorded while fewer
  than 255 are held takes its mspb from the next \<open>L mod 256\<close> bytes (when the stream
  has them), accumulated big-endian, and its step time is the time since the last
  recorded tempo event.
\<close>

theorem meta_length_is_eight_bit:
  fixes r :: reader
  defines "meta_type \<equiv> (word_of_int (fst (fgetc (midi r))) :: u8)"
  defines "L \<equiv> fst (read_variable_length (snd (fgetc (midi r))))"
  defines "f2 \<equiv> snd (read_variable_length (snd (fgetc (midi r))))"
  shows "(\<not> (meta_type = 0x51 \<and> length (tempo_events r) < 255) \<longrightarrow>
            read_meta_event r = r\<lparr>midi := f2\<lparr>pos := pos f2 + unat L mod 256, eof := False\<rparr>\<rparr>) \<and>
         (meta_type = 0x51 \<and> length (tempo_events r) < 255 \<and>
            pos f2 + unat L mod 256 \<le> length (bytes f2) \<longrightarrow>
            read_meta_event r =
              r\<lparr>midi := f2\<lparr>pos := pos f2 + unat L mod 256\<rparr>,
                tempo_events := tempo_events r @
                  [\<lparr>step_time = current_time r - last_tempo_time r,
                    mspb = accumulate_bytes (take (unat L mod 256) (drop (pos f2) (bytes f2)))\<rparr>],
                last_tempo_time := current_time r\<rparr>)"
  unfolding meta_type_def L_def f2_def by (rule read_meta_event_eq)

theorem meta_length_is_eight_bit_witness:
  "read_meta_event
     \<lparr>midi = \<lparr>bytes = [0x00, 0xFF, 0x51, 0x82, 0x03, 0x07, 0xA1, 0x20, 0x00], pos = 2,
              eof = False\<rparr>,
      events = [], tempo_events = [], last_status = 0, current_time = 0,
      last_tempo_time = 0\<rparr> =
     \<lparr>midi = \<lparr>bytes = [0x00, 0xFF, 0x51, 0x82, 0x03, 0x07, 0xA1, 0x20, 0x00], pos = 8,
              eof = False\<rparr>,
      events = [], tempo_events = [\<lparr>step_time = 0, mspb = 500000\<rparr>], last_status = 0,
      current_time = 0, last_tempo_time = 0\<rparr> \<and>
   read_meta_event
     \<lparr>midi = \<lparr>bytes = [0x00, 0xFF, 0x51, 0x00, 0x00], pos = 2, eof = False\<rparr>,
      events = [], tempo_events = [], last_status = 0, current_time = 7,
      last_tempo_time = 0\<rparr> =
     \<lparr>midi = \<lparr>bytes = [0x00, 0xFF, 0x51, 0x00, 0x00], pos = 4, eof = False\<rparr>,
      events = [], tempo_events = [\<lparr>step_time = 7, mspb = 0\<rparr>], last_status = 0,
      current_time = 7, last_tempo_time = 7\<rparr> \<and>
   read_meta_event
     \<lparr>midi = \<lparr>bytes = [0x00, 0xFF, 0x01, 0x82, 0x00, 0x41, 0x42], pos = 2, eof = False\<rparr>,
      events = [], tempo_events = [], last_status = 0, current_time = 0,
      last_tempo_time = 0\<rparr> =
     \<lparr>midi = \<lparr>bytes = [0x00, 0xFF, 0x01, 0x82, 0x00, 0x41, 0x42], pos = 5, eof = False\<rparr>,
      events = [], tempo_events = [], last_status = 0, current_time = 0,
      last_tempo_time = 0\<rparr>"
proof -
  let ?r1 = "\<lparr>midi = \<lparr>bytes = [0x00, 0xFF, 0x51, 0x82, 0x03, 0x07, 0xA1, 0x20, 0x00], pos = 2,
      eof = False\<rparr>, events = [], tempo_events = [], last_status = 0, current_time = 0,
      last_tempo_time = 0\<rparr>"
  let ?r2 = "\<lparr>midi = \<lparr>bytes = [0x00, 0xFF, 0x01, 0x82, 0x00, 0x41, 0x42], pos = 2,
      eof = False\<rparr>, events = [], tempo_events = [], last_status = 0, current_time = 0,
      last_tempo_time = 0\<rparr>"
  let ?r3 = "\<lparr>midi = \<lparr>bytes = [0x00, 0xFF, 0x51, 0x00, 0x00], pos = 2, eof = False\<rparr>,
      events = [], tempo_events = [], last_status = 0, current_time = 7,
      last_tempo_time = 0\<rparr>"
  have a: "(word_of_int (fst (fgetc (midi ?r1))) :: u8) = 0x51"
    "read_variable_length (snd (fgetc (midi ?r1))) =
       (259, \<lparr>bytes = [0x00, 0xFF, 0x51, 0x82, 0x03, 0x07, 0xA1, 0x20, 0x00], pos = 5,
              eof = False\<rparr>)"
    by code_simp+
  have b: "(word_of_int (fst (fgetc (midi ?r2))) :: u8) = 0x01"
    "read_variable_length (snd (fgetc (midi ?r2))) =
       (256, \<lparr>bytes = [0x00, 0xFF, 0x01, 0x82, 0x00, 0x41, 0x42], pos = 5, eof = False\<rparr>)"
    by code_simp+
  have c: "(word_of_int (fst (fgetc (midi ?r3))) :: u8) = 0x51"
    "read_variable_length (snd (fgetc (midi ?r3))) =
       (0, \<lparr>bytes = [0x00, 0xFF, 0x51, 0x00, 0x00], pos = 4, eof = False\<rparr>)"
    by code_simp+
  have d: "accumulate_bytes [0x07, 0xA1, 0x20] = 500000" "accumulate_bytes [] = 0"
    by code_simp+
  show ?thesis
    using meta_length_is_eight_bit [of ?r1] meta_length_is_eight_bit [of ?r2]
      meta_length_is_eight_bit [of ?r3]
    unfolding a b c by (simp add: d)
qed

section \<open>The sorted events\<close>

lemma compare_events_le_iff:
  "compare_events a b \<le> 0 \<longleftrightarrow> sort_key a \<le> sort_key b"
  by (auto simp: compare_events_def sort_key_def terminating_def Let_def
        word_less_nat_alt word_le_nat_alt not_less)

lemma compare_events_eq_iff:
  "compare_events a b = 0 \<longleftrightarrow> sort_key a = sort_key b"
  by (auto simp: compare_events_def sort_key_def terminating_def Let_def
        word_less_nat_alt word_le_nat_alt not_less)

lemma sorted_by_compare_iff:
  "sorted_wrt (\<lambda>a b. compare_events a b \<le> 0) evs \<longleftrightarrow> sorted (map sort_key evs)"
  by (simp add: sorted_wrt_map compare_events_le_iff)

lemma compare_events_le_class:
  "compare_events a b \<le> 0 \<Longrightarrow> absolute_time a = absolute_time b \<Longrightarrow> terminating b
     \<Longrightarrow> terminating a"
  by (simp add: compare_events_le_iff sort_key_def split: if_splits)

text \<open>
  C5, as amended. Whatever order qsort leaves, the sorted list is a rearrangement of
  the events in which, for positions \<open>i < j\<close>, the absolute time at \<open>i\<close> is at most
  the one at \<open>j\<close>, and at equal times a terminating event (status nibble 0x80, or
  0x90 with velocity 0) at \<open>j\<close> has a terminating event at \<open>i\<close>: terminating events
  come first. Nothing is said about the order of events that compare equal.
\<close>

theorem sorted_events_order:
  assumes "qsort_result before after" and "i < j" and "j < length after"
  shows "mset after = mset before \<and>
    absolute_time (after ! i) \<le> absolute_time (after ! j) \<and>
    (absolute_time (after ! i) = absolute_time (after ! j) \<and> terminating (after ! j)
       \<longrightarrow> terminating (after ! i))"
proof -
  from assms have c: "compare_events (after ! i) (after ! j) \<le> 0"
    by (simp add: qsort_result_def sorted_wrt_iff_nth_less)
  show ?thesis
    using assms(1) compare_events_le_time [OF c] compare_events_le_class [OF c]
    by (auto simp: qsort_result_def)
qed

theorem sorted_events_order_witness:
  "absolute_time \<lparr>absolute_time = 0, status = 0xC0, data1 = 5, data2 = 0, gate_time = 0\<rparr>
     \<le> absolute_time \<lparr>absolute_time = 480, status = 0x80, data1 = 60, data2 = 0, gate_time = 0\<rparr> \<and>
   terminating \<lparr>absolute_time = 480, status = 0x80, data1 = 60, data2 = 0, gate_time = 0\<rparr> \<and>
   terminating \<lparr>absolute_time = 480, status = 0x90, data1 = 62, data2 = 0, gate_time = 0\<rparr> \<and>
   \<not> terminating \<lparr>absolute_time = 480, status = 0x91, data1 = 64, data2 = 90, gate_time = 0\<rparr>"
proof -
  let ?before =
    "[\<lparr>absolute_time = 480, status = 0x91, data1 = 64, data2 = 90, gate_time = 0\<rparr>,
      \<lparr>absolute_time = 480, status = 0x80, data1 = 60, data2 = 0, gate_time = 0\<rparr>,
      \<lparr>absolute_time = 0, status = 0xC0, data1 = 5, data2 = 0, gate_time = 0\<rparr>,
      \<lparr>absolute_time = 480, status = 0x90, data1 = 62, data2 = 0, gate_time = 0\<rparr>]"
  let ?after =
    "[\<lparr>absolute_time = 0, status = 0xC0, data1 = 5, data2 = 0, gate_time = 0\<rparr>,
      \<lparr>absolute_time = 480, status = 0x80, data1 = 60, data2 = 0, gate_time = 0\<rparr>,
      \<lparr>absolute_time = 480, status = 0x90, data1 = 62, data2 = 0, gate_time = 0\<rparr>,
      \<lparr>absolute_time = 480, status = 0x91, data1 = 64, data2 = 90, gate_time = 0\<rparr>]"
  have q: "qsort_result ?before ?after"
    by (simp add: qsort_result_def compare_events_def)
  show ?thesis
    using sorted_events_order [OF q, of 0 1] sorted_events_order [OF q, of 1 2]
    by (simp add: terminating_def)
qed

text \<open>
  C5 as stated asks for a stable order. Two Note On events of a chord at time 0
  compare equal; the list with the two exchanged is sorted and holds the same events,
  so the contract of qsort admits it, and it does not keep their order.
\<close>

theorem qsort_may_reorder_equal_events:
  "qsort_result
     [\<lparr>absolute_time = 0, status = 0x90, data1 = 60, data2 = 100, gate_time = 0\<rparr>,
      \<lparr>absolute_time = 0, status = 0x90, data1 = 64, data2 = 100, gate_time = 0\<rparr>]
     [\<lparr>absolute_time = 0, status = 0x90, data1 = 64, data2 = 100, gate_time = 0\<rparr>,
      \<lparr>absolute_time = 0, status = 0x90, data1 = 60, data2 = 100, gate_time = 0\<rparr>] \<and>
   \<not> keeps_equal_order
     [\<lparr>absolute_time = 0, status = 0x90, data1 = 60, data2 = 100, gate_time = 0\<rparr>,
      \<lparr>absolute_time = 0, status = 0x90, data1 = 64, data2 = 100, gate_time = 0\<rparr>]
     [\<lparr>absolute_time = 0, status = 0x90, data1 = 64, data2 = 100, gate_time = 0\<rparr>,
      \<lparr>absolute_time = 0, status = 0x90, data1 = 60, data2 = 100, gate_time = 0\<rparr>]"
  by (simp add: qsort_result_def keeps_equal_order_def compare_events_def)

text \<open>
  C8, as amended. Sorting a list that is already sorted gives a rearrangement that
  agrees with it position by position up to the comparison function: the events at
  each position compare equal (same absolute time, same terminating class).
\<close>

theorem resorting_keeps_keys:
  assumes "sorted_wrt (\<lambda>a b. compare_events a b \<le> 0) evs" and "qsort_result evs after"
    and "i < length evs"
  shows "length after = length evs \<and> mset after = mset evs \<and>
    compare_events (evs ! i) (after ! i) = 0"
proof -
  have m: "mset after = mset evs"
    using assms(2) by (simp add: qsort_result_def)
  then have len: "length after = length evs"
    by (rule mset_eq_length)
  have "sorted (map sort_key evs)" "sorted (map sort_key after)"
    using assms by (simp_all add: qsort_result_def sorted_by_compare_iff)
  moreover have "mset (map sort_key after) = mset (map sort_key evs)"
    using m by simp
  ultimately have "map sort_key after = map sort_key evs"
    by (metis properties_for_sort)
  then have "sort_key (evs ! i) = sort_key (after ! i)"
    using len assms(3) by (metis nth_map)
  then show ?thesis
    using len m by (simp add: compare_events_eq_iff)
qed

theorem resorting_keeps_keys_witness:
  "compare_events
     \<lparr>absolute_time = 10, status = 0xB0, data1 = 7, data2 = 100, gate_time = 0\<rparr>
     \<lparr>absolute_time = 10, status = 0xB0, data1 = 10, data2 = 64, gate_time = 0\<rparr> = 0 \<and>
   compare_events
     \<lparr>absolute_time = 20, status = 0x80, data1 = 60, data2 = 0, gate_time = 0\<rparr>
     \<lparr>absolute_time = 20, status = 0x80, data1 = 60, data2 = 0, gate_time = 0\<rparr> = 0"
proof -
  let ?xs = "[\<lparr>absolute_time = 10, status = 0xB0, data1 = 7, data2 = 100, gate_time = 0\<rparr>,
      \<lparr>absolute_time = 10, status = 0xB0, data1 = 10, data2 = 64, gate_time = 0\<rparr>,
      \<lparr>absolute_time = 20, status = 0x80, data1 = 60, data2 = 0, gate_time = 0\<rparr>]"
  let ?ys = "[\<lparr>absolute_time = 10, status = 0xB0, data1 = 10, data2 = 64, gate_time = 0\<rparr>,
      \<lparr>absolute_time = 10, status = 0xB0, data1 = 7, data2 = 100, gate_time = 0\<rparr>,
      \<lparr>absolute_time = 20, status = 0x80, data1 = 60, data2 = 0, gate_time = 0\<rparr>]"
  have s: "sorted_wrt (\<lambda>a b. compare_events a b \<le> 0) ?xs"
    by (simp add: compare_events_def)
  have q: "qsort_result ?xs ?ys"
    by (simp add: qsort_result_def compare_events_def)
  have "compare_events (?xs ! 0) (?ys ! 0) = 0" "compare_events (?xs ! 2) (?ys ! 2) = 0"
    using resorting_keeps_keys [OF s q, of 0] resorting_keeps_keys [OF s q, of 2] by simp_all
  then show ?thesis by simp
qed

text \<open>
  C8 as stated asks for the identical sequence. Two Control Change events at time 10
  form a sorted list; the list with the two exchanged is a result the contract of
  qsort admits, and it is a different sequence.
\<close>

theorem resorting_may_change_sequence:
  "sorted_wrt (\<lambda>a b. compare_events a b \<le> 0)
     [\<lparr>absolute_time = 10, status = 0xB0, data1 = 7, data2 = 100, gate_time = 0\<rparr>,
      \<lparr>absolute_time = 10, status = 0xB0, data1 = 10, data2 = 64, gate_time = 0\<rparr>] \<and>
   qsort_result
     [\<lparr>absolute_time = 10, status = 0xB0, data1 = 7, data2 = 100, gate_time = 0\<rparr>,
      \<lparr>absolute_time = 10, status = 0xB0, data1 = 10, data2 = 64, gate_time = 0\<rparr>]
     [\<lparr>absolute_time = 10, status = 0xB0, data1 = 10, data2 = 64, gate_time = 0\<rparr>,
      \<lparr>absolute_time = 10, status = 0xB0, data1 = 7, data2 = 100, gate_time = 0\<rparr>] \<and>
   [\<lparr>absolute_time = 10, status = 0xB0, data1 = 10, data2 = 64, gate_time = 0\<rparr>,
    \<lparr>absolute_time = 10, status = 0xB0, data1 = 7, data2 = 100, gate_time = 0\<rparr>] \<noteq>
   [\<lparr>absolute_time = 10, status = 0xB0, data1 = 7, data2 = 100, gate_time = 0\<rparr>,
    \<lparr>absolute_time = 10, status = 0xB0, data1 = 10, data2 = 64, gate_time = 0\<rparr>]"
  by (simp add: qsort_result_def compare_events_def)

section \<open>Meta events by their length field\<close>

lemma accumulate_step:
  fixes m :: u32 and b :: u8
  assumes "unat m < 2 ^ 24"
  shows "unat (push_bit 8 m OR ucast b) = unat m * 256 + unat b"
proof -
  have disj: "push_bit 8 m OR ucast b = push_bit 8 m + ucast b"
    by (rule disjunctive_add [symmetric]) (auto simp: bit_simps dest: bit_imp_le_length)
  have "unat m * unat (256 :: u32) < 2 ^ LENGTH(32)"
    using assms by simp
  then have "unat (m * 256) = unat m * unat (256 :: u32)"
    by (rule unat_mult_lem [THEN iffD1])
  then have 1: "unat (push_bit 8 m) = unat m * 256"
    by (simp add: push_bit_eq_mult)
  have b: "unat b < 256"
    using unsigned_less [of b] by simp
  have 2: "unat (ucast b :: u32) = unat b"
    using b by (simp add: unsigned_ucast_eq take_bit_nat_eq_self)
  have "unat (push_bit 8 m) + unat (ucast b :: u32) < 2 ^ LENGTH(32)"
    using assms b unfolding 1 2 by simp
  then have "unat (push_bit 8 m + ucast b) = unat (push_bit 8 m) + unat (ucast b :: u32)"
    by (rule unat_add_lem [THEN iffD1])
  then show ?thesis
    unfolding disj 1 2 .
qed

lemma accumulate_three_bytes:
  "unat (accumulate_bytes [b0, b1, b2]) = unat b0 * 65536 + unat b1 * 256 + unat b2"
proof -
  have b: "unat b0 < 256" "unat b1 < 256"
    using unsigned_less [of b0] unsigned_less [of b1] by simp_all
  have 0: "unat (push_bit 8 (0 :: u32) OR ucast b0) = unat b0"
    using accumulate_step [of 0 b0] by simp
  have 1: "unat (push_bit 8 (push_bit 8 (0 :: u32) OR ucast b0) OR ucast b1)
      = unat b0 * 256 + unat b1"
    using accumulate_step [of "push_bit 8 (0 :: u32) OR ucast b0" b1] b unfolding 0 by simp
  have "unat (push_bit 8 (push_bit 8 (push_bit 8 (0 :: u32) OR ucast b0) OR ucast b1) OR ucast b2)
      = (unat b0 * 256 + unat b1) * 256 + unat b2"
    using accumulate_step [of "push_bit 8 (push_bit 8 (0 :: u32) OR ucast b0) OR ucast b1" b2] b
    unfolding 1 by simp
  then show ?thesis
    unfolding accumulate_bytes_def foldl.simps by (simp add: algebra_simps)
qed

lemma take_three:
  "p + 3 \<le> length bs \<Longrightarrow> take 3 (drop p bs) = [bs ! p, bs ! (p + 1), bs ! (p + 2)]"
  by (simp add: list_eq_iff_nth_eq less_Suc_eq numeral_3_eq_3 add.commute)

text \<open>
  C4, as amended. \<open>L\<close> is the decoded length field of the meta event, below 256.
  A Set Tempo event (type 0x51) met while fewer than 255 tempo events are held is
  recorded: its mspb is accumulated big-endian from the next \<open>L\<close> bytes (when the
  stream has them), which for the \<open>L = 3\<close> of a standard Set Tempo is the 3-byte
  big-endian number, and its step time is the time since the last recorded tempo
  event. Every other meta event is skipped by moving the position \<open>L\<close> bytes on.
\<close>

theorem meta_event_by_length_field:
  fixes r :: reader
  defines "meta_type \<equiv> (word_of_int (fst (fgetc (midi r))) :: u8)"
  defines "L \<equiv> fst (read_variable_length (snd (fgetc (midi r))))"
  defines "f2 \<equiv> snd (read_variable_length (snd (fgetc (midi r))))"
  shows "(meta_type = 0x51 \<and> length (tempo_events r) < 255 \<and> unat L < 256 \<and>
            pos f2 + unat L \<le> length (bytes f2) \<longrightarrow>
            read_meta_event r =
              r\<lparr>midi := f2\<lparr>pos := pos f2 + unat L\<rparr>,
                tempo_events := tempo_events r @
                  [\<lparr>step_time = current_time r - last_tempo_time r,
                    mspb = accumulate_bytes (take (unat L) (drop (pos f2) (bytes f2)))\<rparr>],
                last_tempo_time := current_time r\<rparr>) \<and>
         (unat L = 3 \<and> pos f2 + 3 \<le> length (bytes f2) \<longrightarrow>
            unat (accumulate_bytes (take (unat L) (drop (pos f2) (bytes f2)))) =
              unat (bytes f2 ! pos f2) * 65536 + unat (bytes f2 ! (pos f2 + 1)) * 256
                + unat (bytes f2 ! (pos f2 + 2))) \<and>
         (\<not> (meta_type = 0x51 \<and> length (tempo_events r) < 255) \<and> unat L < 256 \<longrightarrow>
            read_meta_event r = r\<lparr>midi := f2\<lparr>pos := pos f2 + unat L, eof := False\<rparr>\<rparr>)"
proof -
  have "unat L = 3 \<and> pos f2 + 3 \<le> length (bytes f2) \<longrightarrow>
      unat (accumulate_bytes (take (unat L) (drop (pos f2) (bytes f2)))) =
        unat (bytes f2 ! pos f2) * 65536 + unat (bytes f2 ! (pos f2 + 1)) * 256
          + unat (bytes f2 ! (pos f2 + 2))"
    by (simp add: take_three accumulate_three_bytes)
  then show ?thesis
    using read_meta_event_eq [of r]
    unfolding meta_type_def L_def f2_def by (simp add: mod_less)
qed

theorem meta_event_by_length_field_witness:
  "read_meta_event
     \<lparr>midi = \<lparr>bytes = [0x60, 0xFF, 0x51, 0x03, 0x09, 0x27, 0xC0, 0x00], pos = 2, eof = False\<rparr>,
      events = [], tempo_events = [\<lparr>step_time = 0, mspb = 500000\<rparr>], last_status = 0x90,
      current_time = 96, last_tempo_time = 0\<rparr> =
     \<lparr>midi = \<lparr>bytes = [0x60, 0xFF, 0x51, 0x03, 0x09, 0x27, 0xC0, 0x00], pos = 7, eof = False\<rparr>,
      events = [],
      tempo_events = [\<lparr>step_time = 0, mspb = 500000\<rparr>, \<lparr>step_time = 96, mspb = 600000\<rparr>],
      last_status = 0x90, current_time = 96, last_tempo_time = 96\<rparr> \<and>
   unat (accumulate_bytes [0x09, 0x27, 0xC0]) = 9 * 65536 + 39 * 256 + 192 \<and>
   read_meta_event
     \<lparr>midi = \<lparr>bytes = [0x00, 0xFF, 0x03, 0x02, 0x68, 0x69, 0x00], pos = 2, eof = False\<rparr>,
      events = [], tempo_events = [], last_status = 0, current_time = 0,
      last_tempo_time = 0\<rparr> =
     \<lparr>midi = \<lparr>bytes = [0x00, 0xFF, 0x03, 0x02, 0x68, 0x69, 0x00], pos = 6, eof = False\<rparr>,
      events = [], tempo_events = [], last_status = 0, current_time = 0,
      last_tempo_time = 0\<rparr>"
proof -
  let ?r1 = "\<lparr>midi = \<lparr>bytes = [0x60, 0xFF, 0x51, 0x03, 0x09, 0x27, 0xC0, 0x00], pos = 2,
      eof = False\<rparr>, events = [], tempo_events = [\<lparr>step_time = 0, mspb = 500000\<rparr>],
      last_status = 0x90, current_time = 96, last_tempo_time = 0\<rparr>"
  let ?r2 = "\<lparr>midi = \<lparr>bytes = [0x00, 0xFF, 0x03, 0x02, 0x68, 0x69, 0x00], pos = 2,
      eof = False\<rparr>, events = [], tempo_events = [], last_status = 0, current_time = 0,
      last_tempo_time = 0\<rparr>"
  have a: "(word_of_int (fst (fgetc (midi ?r1))) :: u8) = 0x51"
    "read_variable_length (snd (fgetc (midi ?r1))) =
       (3, \<lparr>bytes = [0x60, 0xFF, 0x51, 0x03, 0x09, 0x27, 0xC0, 0x00], pos = 4, eof = False\<rparr>)"
    by code_simp+
  have b: "(word_of_int (fst (fgetc (midi ?r2))) :: u8) = 0x03"
    "read_variable_length (snd (fgetc (midi ?r2))) =
       (2, \<lparr>bytes = [0x00, 0xFF, 0x03, 0x02, 0x68, 0x69, 0x00], pos = 4, eof = False\<rparr>)"
    by code_simp+
  have c: "accumulate_bytes [0x09, 0x27, 0xC0] = 600000"
    by code_simp
  show ?thesis
    using meta_event_by_length_field [of ?r1] meta_event_by_length_field [of ?r2]
    unfolding a b by (simp add: c)
qed

text \<open>
  C4 as stated has the reader take 3 bytes. A Set Tempo event whose length field says
  4 has its four bytes 00 07 A1 20 read: mspb is 500000 and the position moves past
  all four. Three bytes would have given 1953.
\<close>

theorem set_tempo_reads_declared_length:
  "read_meta_event
     \<lparr>midi = \<lparr>bytes = [0x00, 0xFF, 0x51, 0x04, 0x00, 0x07, 0xA1, 0x20], pos = 2, eof = False\<rparr>,
      events = [], tempo_events = [], last_status = 0, current_time = 0,
      last_tempo_time = 0\<rparr> =
     \<lparr>midi = \<lparr>bytes = [0x00, 0xFF, 0x51, 0x04, 0x00, 0x07, 0xA1, 0x20], pos = 8, eof = False\<rparr>,
      events = [], tempo_events = [\<lparr>step_time = 0, mspb = 500000\<rparr>], last_status = 0,
      current_time = 0, last_tempo_time = 0\<rparr> \<and>
   accumulate_bytes [0x00, 0x07, 0xA1] = 1953"
  by code_simp

section \<open>The gate pass, step by step\<close>

text \<open>
  What one step of the pass does when it runs through: nothing, the entry of a Note On
  (closing the note its table position holds, if any), or the closing of the note the
  table position of a terminating event holds.
\<close>

lemma gate_step_shape:
  assumes "gate_step i (E, T) = Inr (E', T')"
  obtains
    (idle) "E' = E" "T' = T"
      "\<not> (status (E ! i) AND 0xF0 = 0x90 \<and> data2 (E ! i) > 0)"
      "terminating (E ! i) \<longrightarrow> T (note_slot (E ! i)) = None"
  | (note_on) "status (E ! i) AND 0xF0 = 0x90" "data2 (E ! i) > 0"
      "T' = T(note_slot (E ! i) := Some i)"
      "case T (note_slot (E ! i)) of
         None \<Rightarrow> E' = E
       | Some p \<Rightarrow> E' = E[p := (E ! p)
           \<lparr>gate_time := absolute_time (E ! i) - absolute_time (E ! p)\<rparr>]"
  | (note_off) p where "terminating (E ! i)"
      "T (note_slot (E ! i)) = Some p"
      "T' = T(note_slot (E ! i) := None)"
      "E' = (E[p := (E ! p)\<lparr>gate_time := absolute_time (E ! i) - absolute_time (E ! p)\<rparr>])
          [i := ((E[p := (E ! p)
             \<lparr>gate_time := absolute_time (E ! i) - absolute_time (E ! p)\<rparr>]) ! i)
             \<lparr>status := 0x00\<rparr>]"
proof (cases "status (E ! i) AND 0xF0 = 0x90 \<and> data2 (E ! i) > 0")
  case True
  with assms show ?thesis
    by (intro note_on)
      (auto simp: gate_step_def Let_def note_slot_def split: if_splits option.splits)
next
  case on: False
  show ?thesis
  proof (cases "terminating (E ! i)")
    case False
    with on assms show ?thesis
      by (intro idle) (auto simp: gate_step_def Let_def terminating_def split: if_splits)
  next
    case True
    then have t: "status (E ! i) AND 0xF0 = 0x80 \<or>
        (status (E ! i) AND 0xF0 = 0x90 \<and> data2 (E ! i) = 0)"
      by (simp add: terminating_def)
    show ?thesis
    proof (cases "T (note_slot (E ! i))")
      case None
      with on t assms show ?thesis
        by (intro idle) (auto simp: gate_step_def Let_def note_slot_def split: if_splits)
    next
      case (Some p)
      with on t assms True show ?thesis
        by (intro note_off [of p])
          (auto simp: gate_step_def Let_def note_slot_def split: if_splits)
    qed
  qed
qed

lemma gate_step_length:
  assumes "gate_step i (E, T) = Inr (E', T')"
  shows "length E' = length E"
  using assms by (cases rule: gate_step_shape) (auto split: option.splits)

lemma gate_step_frame:
  assumes "gate_step i (E, T) = Inr (E', T')" and "j \<noteq> i" and "\<forall>n. T n \<noteq> Some j"
  shows "E' ! j = E ! j \<and> (\<forall>n. T' n \<noteq> Some j)"
  using assms(1)
proof (cases rule: gate_step_shape)
  case idle
  with assms show ?thesis by simp
next
  case note_on
  have "E' ! j = E ! j"
  proof (cases "T (note_slot (E ! i))")
    case None
    with note_on(4) show ?thesis by simp
  next
    case (Some p)
    with assms(3) have "p \<noteq> j" by metis
    with note_on(4) Some show ?thesis by simp
  qed
  moreover have "\<forall>n. T' n \<noteq> Some j"
    using note_on(3) assms(2,3) by auto
  ultimately show ?thesis by simp
next
  case (note_off p)
  from assms(3) note_off(2) have "p \<noteq> j" by metis
  with note_off(4) assms(2) have "E' ! j = E ! j" by simp
  moreover have "\<forall>n. T' n \<noteq> Some j"
    using note_off(3) assms(3) by auto
  ultimately show ?thesis by simp
qed

lemma gate_step_keep:
  assumes "gate_step i (E, T) = Inr (E', T')" and "T n = Some p"
    and "\<forall>m. m \<noteq> n \<longrightarrow> T m \<noteq> Some p" and "i \<noteq> p"
    and "\<not> uses_slot n (E ! i)"
  shows "T' n = Some p \<and> (\<forall>m. m \<noteq> n \<longrightarrow> T' m \<noteq> Some p) \<and> E' ! p = E ! p"
  using assms(1)
proof (cases rule: gate_step_shape)
  case idle
  with assms(2,3) show ?thesis by simp
next
  case note_on
  from note_on(1) assms(5) have ne: "note_slot (E ! i) \<noteq> n"
    by (auto simp: uses_slot_def)
  have "E' ! p = E ! p"
  proof (cases "T (note_slot (E ! i))")
    case None
    with note_on(4) show ?thesis by simp
  next
    case (Some p')
    with assms(3) ne have "p' \<noteq> p" by auto
    with note_on(4) Some show ?thesis by simp
  qed
  moreover have "T' n = Some p"
    using note_on(3) ne assms(2) by auto
  moreover have "\<forall>m. m \<noteq> n \<longrightarrow> T' m \<noteq> Some p"
    using note_on(3) assms(3,4) by auto
  ultimately show ?thesis by simp
next
  case (note_off p')
  from note_off(1) assms(5) have ne: "note_slot (E ! i) \<noteq> n"
    by (auto simp: uses_slot_def terminating_def)
  with assms(3) note_off(2) have "p' \<noteq> p" by auto
  with note_off(4) assms(4) have "E' ! p = E ! p" by simp
  moreover have "T' n = Some p"
    using note_off(3) ne assms(2) by auto
  moreover have "\<forall>m. m \<noteq> n \<longrightarrow> T' m \<noteq> Some p"
    using note_off(3) assms(3) by auto
  ultimately show ?thesis by simp
qed

lemma uses_slot_gate_time [simp]:
  "uses_slot n (e\<lparr>gate_time := g\<rparr>) = uses_slot n e"
  by (simp add: uses_slot_def note_slot_def)

lemma uses_slot_removed [simp]:
  "\<not> uses_slot n (e\<lparr>status := 0x00\<rparr>)"
  by (simp add: uses_slot_def)

lemma not_note_gate_update:
  assumes "\<not> uses_slot n (E ! j)"
  shows "\<not> uses_slot n (E[p := (E ! p)\<lparr>gate_time := g\<rparr>] ! j)"
proof (cases "j = p \<and> p < length E")
  case True
  with assms show ?thesis by simp
next
  case False
  then consider "j \<noteq> p" | "length E \<le> p" by force
  then show ?thesis
    using assms by cases (simp_all add: list_update_beyond)
qed

lemma not_note_status_update:
  assumes "\<not> uses_slot n (E ! j)"
  shows "\<not> uses_slot n (E[i := (E ! i)\<lparr>status := 0x00\<rparr>] ! j)"
proof (cases "j = i \<and> i < length E")
  case True
  then show ?thesis by simp
next
  case False
  then consider "j \<noteq> i" | "length E \<le> i" by force
  then show ?thesis
    using assms by cases (simp_all add: list_update_beyond)
qed

lemma gate_step_not_note:
  assumes "gate_step i (E, T) = Inr (E', T')" and "\<not> uses_slot n (E ! j)"
  shows "\<not> uses_slot n (E' ! j)"
  using assms(1)
proof (cases rule: gate_step_shape)
  case idle
  with assms show ?thesis by simp
next
  case note_on
  show ?thesis
  proof (cases "T (note_slot (E ! i))")
    case None
    with note_on(4) assms(2) show ?thesis by simp
  next
    case (Some p)
    with note_on(4) have "E' = E[p := (E ! p)
        \<lparr>gate_time := absolute_time (E ! i) - absolute_time (E ! p)\<rparr>]" by simp
    then show ?thesis
      using not_note_gate_update [OF assms(2)] by simp
  qed
next
  case (note_off p)
  define E1 where "E1 = E[p := (E ! p)
      \<lparr>gate_time := absolute_time (E ! i) - absolute_time (E ! p)\<rparr>]"
  have 1: "\<not> uses_slot n (E1 ! j)"
    unfolding E1_def using assms(2) by (rule not_note_gate_update)
  have "E' = E1[i := (E1 ! i)\<lparr>status := 0x00\<rparr>]"
    using note_off(4) by (simp add: E1_def)
  then show ?thesis
    using not_note_status_update [OF 1] by simp
qed

lemma gate_loop_ConsE:
  assumes "gate_loop (i # rest) s = Inr r"
  obtains E1 T1 where "gate_step i s = Inr (E1, T1)" and "gate_loop rest (E1, T1) = Inr r"
  using assms by (cases "gate_step i s") auto

lemma gate_loop_append:
  "gate_loop (xs @ ys) s =
     (case gate_loop xs s of Inl err \<Rightarrow> Inl err | Inr s' \<Rightarrow> gate_loop ys s')"
  by (induction xs arbitrary: s) (simp_all split: sum.splits)

lemma gate_loop_appendE:
  assumes "gate_loop (xs @ ys) s = Inr r"
  obtains E1 T1 where "gate_loop xs s = Inr (E1, T1)" and "gate_loop ys (E1, T1) = Inr r"
  using assms by (cases "gate_loop xs s") (auto simp: gate_loop_append)

lemma gate_loop_length:
  "gate_loop idx (E, T) = Inr (E', T') \<Longrightarrow> length E' = length E"
proof (induction idx arbitrary: E T)
  case Nil
  then show ?case by simp
next
  case (Cons i rest)
  from Cons.prems obtain E1 T1 where 1: "gate_step i (E, T) = Inr (E1, T1)"
    and 2: "gate_loop rest (E1, T1) = Inr (E', T')"
    by (rule gate_loop_ConsE)
  from Cons.IH [OF 2] gate_step_length [OF 1] show ?case by simp
qed

lemma gate_loop_frame:
  "gate_loop idx (E, T) = Inr (E', T') \<Longrightarrow> j \<notin> set idx \<Longrightarrow> \<forall>n. T n \<noteq> Some j \<Longrightarrow>
     E' ! j = E ! j \<and> (\<forall>n. T' n \<noteq> Some j)"
proof (induction idx arbitrary: E T)
  case Nil
  then show ?case by simp
next
  case (Cons i rest)
  from Cons.prems(1) obtain E1 T1 where 1: "gate_step i (E, T) = Inr (E1, T1)"
    and 2: "gate_loop rest (E1, T1) = Inr (E', T')"
    by (rule gate_loop_ConsE)
  from Cons.prems(2) have ji: "j \<noteq> i" and jr: "j \<notin> set rest" by auto
  from gate_step_frame [OF 1 ji Cons.prems(3)]
  have 3: "E1 ! j = E ! j" and 4: "\<forall>n. T1 n \<noteq> Some j" by simp_all
  from Cons.IH [OF 2 jr 4] 3 show ?case by simp
qed

lemma gate_loop_keep:
  "gate_loop idx (E, T) = Inr (E', T') \<Longrightarrow> T n = Some p \<Longrightarrow>
     \<forall>m. m \<noteq> n \<longrightarrow> T m \<noteq> Some p \<Longrightarrow> p \<notin> set idx \<Longrightarrow>
     \<forall>i\<in>set idx. \<not> uses_slot n (E ! i) \<Longrightarrow>
     T' n = Some p \<and> (\<forall>m. m \<noteq> n \<longrightarrow> T' m \<noteq> Some p) \<and> E' ! p = E ! p"
proof (induction idx arbitrary: E T)
  case Nil
  then show ?case by simp
next
  case (Cons i rest)
  from Cons.prems(1) obtain E1 T1 where 1: "gate_step i (E, T) = Inr (E1, T1)"
    and 2: "gate_loop rest (E1, T1) = Inr (E', T')"
    by (rule gate_loop_ConsE)
  from Cons.prems(4) have ip: "i \<noteq> p" and pr: "p \<notin> set rest" by auto
  from Cons.prems(5) have ni: "\<not> uses_slot n (E ! i)" by simp
  from gate_step_keep [OF 1 Cons.prems(2,3) ip ni]
  have 3: "T1 n = Some p" and 4: "\<forall>m. m \<noteq> n \<longrightarrow> T1 m \<noteq> Some p"
    and 5: "E1 ! p = E ! p" by simp_all
  have 6: "\<forall>i\<in>set rest. \<not> uses_slot n (E1 ! i)"
    using Cons.prems(5) gate_step_not_note [OF 1] by simp
  from Cons.IH [OF 2 3 4 pr 6] 5 show ?case by simp
qed

section \<open>Note records in the output track\<close>

lemma status_nonzero_if_note_off:
  fixes s :: u8
  shows "s AND 0xF0 = 0x80 \<Longrightarrow> s \<noteq> 0"
  by auto

lemma status_nonzero_if_note_on:
  fixes s :: u8
  shows "s AND 0xF0 = 0x90 \<Longrightarrow> s \<noteq> 0"
  by auto

lemma low_byte_of_nat:
  fixes w :: u32
  shows "(ucast w :: u8) = of_nat (unat w)"
  by simp

lemma note_off_record:
  fixes e :: TrackEvent and l :: u32 and f :: "u8 list"
  assumes "status e AND 0xF0 = 0x80"
  defines "d \<equiv> unat (absolute_time e - l)"
  shows "write_track_event (f, l) e =
    (f @ replicate (d div 4096) 0x8F @ replicate (d mod 4096 div 2048) 0x8E
       @ replicate (d mod 2048 div 512) 0x8D @ replicate (d mod 512 div 256) 0x8C
       @ [status e, data1 e, of_nat (d mod 256)], absolute_time e)"
proof -
  define s1 where "s1 = write_large_delta_events f (absolute_time e - l)"
  define s2 where "s2 = write_delta_extend s1"
  have m: "d mod 4096 mod 2048 = d mod 2048" "d mod 2048 mod 512 = d mod 512"
    "d mod 512 mod 256 = d mod 256"
    by (simp_all add: mod_mod_cancel)
  have s1f: "fst s1 = f @ replicate (d div 4096) 0x8F @ replicate (d mod 4096 div 2048) 0x8E
       @ replicate (d mod 2048 div 512) 0x8D"
    by (simp add: s1_def large_delta_fst d_def [symmetric] m)
  have s1s: "unat (snd s1) = d mod 512"
    by (simp add: s1_def large_delta_snd d_def [symmetric] m)
  have s2f: "fst s2 = fst s1 @ replicate (d mod 512 div 256) 0x8C"
    by (simp add: s2_def delta_extend_fst s1s)
  have s2s: "unat (snd s2) = d mod 256"
    by (simp add: s2_def delta_extend_snd s1s m)
  have st: "status e \<noteq> 0"
    using assms(1) by (rule status_nonzero_if_note_off)
  have "write_track_event (f, l) e =
      (fst s2 @ [status e, data1 e, ucast (snd s2)], absolute_time e)"
    using assms(1) st
    by (simp add: write_track_event_def write_other_def split_def Let_def s1_def s2_def)
  then show ?thesis
    by (simp only: low_byte_of_nat s2s s2f s1f append_assoc)
qed

lemma note_on_record_decodes:
  assumes "status e AND 0xF0 = 0x90"
  shows "decode_note_on (drop (length f) (fst (write_track_event (f, l) e))) =
    Some (unat (absolute_time e - l), unat (gate_time e))"
proof -
  have "status e \<noteq> 0"
    using assms by (rule status_nonzero_if_note_on)
  then have "fst (write_track_event (f, l) e) =
      write_note_on (fst (write_large_delta_events f (absolute_time e - l))) e
        (status e AND 0x0F) (snd (write_large_delta_events f (absolute_time e - l)))"
    using assms by (simp add: write_track_event_def split_def Let_def)
  then show ?thesis
    by (simp only: note_on_roundtrip)
qed

lemma write_normal_track_split:
  "\<exists>rest. write_normal_track f0 (s1 @ e # s2) =
     fst (write_track_event (foldl write_track_event (f0, 0) s1) e) @ rest"
proof -
  obtain f1 l1 where st: "write_track_event (foldl write_track_event (f0, 0) s1) e = (f1, l1)"
    by (cases "write_track_event (foldl write_track_event (f0, 0) s1) e")
  obtain bs where "fst (foldl write_track_event (f1, l1) s2) = f1 @ bs"
    using write_events_extend [of f1 l1 s2] by blast
  then show ?thesis
    by (simp add: write_normal_track_def st)
qed


section \<open>Notes whose table position no other event touches\<close>

text \<open>
  The pass pairs events by table position. Where no note event between a Note On and
  the terminating event for its channel and key looks up the same position, and the
  pass runs through, the Note On gets the distance of the two as its gate time.
\<close>

lemma upt_split_from:
  assumes "m \<le> q" and "q < n"
  shows "[m..<n] = [m..<q] @ q # [Suc q..<n]"
proof -
  have "[m..<n] = [m..<q] @ [q..<n]"
    using assms upt_add_eq_append [of m q "n - q"] by simp
  also have "[q..<n] = q # [Suc q..<n]"
    using assms(2) by (rule upt_conv_Cons)
  finally show ?thesis .
qed

lemma gate_step_note_on:
  assumes "gate_step i (E, T) = Inr (E', T')"
    and "status (E ! i) AND 0xF0 = 0x90" and "data2 (E ! i) > 0"
    and "\<forall>n. T n \<noteq> Some i"
  shows "E' ! i = E ! i \<and> T' (note_slot (E ! i)) = Some i \<and>
    (\<forall>m. m \<noteq> note_slot (E ! i) \<longrightarrow> T' m \<noteq> Some i)"
  using assms(1)
proof (cases rule: gate_step_shape)
  case idle
  with assms(2,3) show ?thesis by simp
next
  case note_on
  have "E' ! i = E ! i"
  proof (cases "T (note_slot (E ! i))")
    case None
    with note_on(4) show ?thesis by simp
  next
    case (Some p)
    with assms(4) have "p \<noteq> i" by metis
    with note_on(4) Some show ?thesis by simp
  qed
  then show ?thesis
    using note_on(3) assms(4) by simp
next
  case (note_off p)
  with assms(2,3) show ?thesis by (simp add: terminating_def)
qed

lemma gate_step_note_off:
  assumes "gate_step i (E, T) = Inr (E', T')" and "terminating (E ! i)"
    and "T (note_slot (E ! i)) = Some p"
    and "\<forall>m. m \<noteq> note_slot (E ! i) \<longrightarrow> T m \<noteq> Some p"
    and "p \<noteq> i" and "p < length E"
  shows "E' ! p = (E ! p)\<lparr>gate_time := absolute_time (E ! i) - absolute_time (E ! p)\<rparr> \<and>
    (\<forall>n. T' n \<noteq> Some p)"
  using assms(1)
proof (cases rule: gate_step_shape)
  case idle
  with assms(2,3) show ?thesis by simp
next
  case note_on
  with assms(2) show ?thesis by (simp add: terminating_def)
next
  case (note_off p')
  with assms(3) have pp: "p' = p" by simp
  have "E' ! p = (E ! p)\<lparr>gate_time := absolute_time (E ! i) - absolute_time (E ! p)\<rparr>"
    using note_off(4) assms(5,6) by (simp add: pp)
  moreover have "\<forall>n. T' n \<noteq> Some p"
    using note_off(3) assms(4) by auto
  ultimately show ?thesis by simp
qed

lemma matched_note_on_gate:
  fixes on off :: TrackEvent
  defines "n \<equiv> note_slot on"
  assumes evs: "evs = pre @ on # mid @ off # post"
    and on: "status on AND 0xF0 = 0x90" "data2 on > 0"
    and off: "terminating off" "note_slot off = n"
    and mid: "\<forall>e\<in>set mid. \<not> uses_slot n e"
    and cg: "calc_gates evs = Inr evs'"
  shows "evs' ! length pre = on\<lparr>gate_time := absolute_time off - absolute_time on\<rparr>
    \<and> length evs' = length evs"
proof -
  define p where "p = length pre"
  define q where "q = Suc (p + length mid)"
  define len where "len = length evs"
  have pq: "p < q" and qn: "q < len" and pn: "p < len"
    by (simp_all add: p_def q_def len_def evs)
  have at_p: "evs ! p = on"
    by (simp add: evs p_def)
  have at_q: "evs ! q = off"
    by (simp add: evs p_def q_def nth_append)
  have at_mid: "\<not> uses_slot n (evs ! i)" if "i \<in> set [Suc p..<q]" for i
  proof -
    from that have "Suc p \<le> i" "i < q" by simp_all
    then have "evs ! i = mid ! (i - Suc p)" and "i - Suc p < length mid"
      by (auto simp: evs p_def q_def nth_append nth_Cons')
    with mid show ?thesis by (metis nth_mem)
  qed
  from cg obtain T' where gl: "gate_loop [0..<len] (evs, no_active_notes) = Inr (evs', T')"
    by (auto simp: calc_gates_def len_def split: sum.splits)
  have len': "length evs' = length evs"
    using gl by (rule gate_loop_length)
  have sp1: "[0..<len] = [0..<p] @ p # [Suc p..<len]"
    using pn by (intro upt_split_from) simp_all
  have sp2: "[Suc p..<len] = [Suc p..<q] @ q # [Suc q..<len]"
    using pq qn by (intro upt_split_from) simp_all
  \<comment> \<open>the steps before the Note On\<close>
  from gl obtain EA TA where a1: "gate_loop [0..<p] (evs, no_active_notes) = Inr (EA, TA)"
    and a2: "gate_loop (p # [Suc p..<len]) (EA, TA) = Inr (evs', T')"
    unfolding sp1 by (rule gate_loop_appendE)
  have frameA: "EA ! j = evs ! j \<and> (\<forall>m. TA m \<noteq> Some j)" if "p \<le> j" for j
    using a1 by (rule gate_loop_frame) (use that in \<open>simp_all add: no_active_notes_def\<close>)
  have lenA: "length EA = length evs"
    using a1 by (rule gate_loop_length)
  \<comment> \<open>the Note On itself\<close>
  from a2 obtain EB TB where b1: "gate_step p (EA, TA) = Inr (EB, TB)"
    and b2: "gate_loop [Suc p..<len] (EB, TB) = Inr (evs', T')"
    by (rule gate_loop_ConsE)
  have EAp: "EA ! p = on" and TAp: "\<forall>m. TA m \<noteq> Some p"
    using frameA [of p] at_p by simp_all
  have stepB: "EB ! p = on \<and> TB n = Some p \<and> (\<forall>m. m \<noteq> n \<longrightarrow> TB m \<noteq> Some p)"
    using gate_step_note_on [OF b1] on TAp EAp by (simp add: n_def)
  have lenB: "length EB = length evs"
    using gate_step_length [OF b1] lenA by simp
  have frameB: "EB ! j = evs ! j \<and> (\<forall>m. TB m \<noteq> Some j)" if "p < j" for j
  proof -
    from that have "j \<noteq> p" "p \<le> j" by simp_all
    with gate_step_frame [OF b1, of j] frameA [of j] show ?thesis by simp
  qed
  \<comment> \<open>the events between the two\<close>
  from b2 obtain EC TC where c1: "gate_loop [Suc p..<q] (EB, TB) = Inr (EC, TC)"
    and c2: "gate_loop (q # [Suc q..<len]) (EC, TC) = Inr (evs', T')"
    unfolding sp2 by (rule gate_loop_appendE)
  have midB: "\<forall>i\<in>set [Suc p..<q]. \<not> uses_slot n (EB ! i)"
  proof
    fix i assume i: "i \<in> set [Suc p..<q]"
    then have "p < i" by simp
    then have "EB ! i = evs ! i" using frameB by simp
    with at_mid [OF i] show "\<not> uses_slot n (EB ! i)" by simp
  qed
  have keepC: "TC n = Some p \<and> (\<forall>m. m \<noteq> n \<longrightarrow> TC m \<noteq> Some p) \<and> EC ! p = EB ! p"
    using c1 by (rule gate_loop_keep) (use stepB midB in simp_all)
  have frameC: "EC ! q = EB ! q \<and> (\<forall>m. TC m \<noteq> Some q)"
    using c1 by (rule gate_loop_frame) (use frameB [OF pq] in simp_all)
  have lenC: "length EC = length evs"
    using gate_loop_length [OF c1] lenB by simp
  have ECq: "EC ! q = off"
    using frameC frameB [OF pq] at_q by simp
  have ECp: "EC ! p = on"
    using keepC stepB by simp
  \<comment> \<open>the terminating event\<close>
  from c2 obtain ED TD where d1: "gate_step q (EC, TC) = Inr (ED, TD)"
    and d2: "gate_loop [Suc q..<len] (ED, TD) = Inr (evs', T')"
    by (rule gate_loop_ConsE)
  have stepD: "ED ! p = (EC ! p)\<lparr>gate_time := absolute_time (EC ! q) - absolute_time (EC ! p)\<rparr>
      \<and> (\<forall>m. TD m \<noteq> Some p)"
    using d1
    by (rule gate_step_note_off) (use off keepC ECq pq pn lenC in \<open>simp_all add: len_def\<close>)
  \<comment> \<open>the rest of the track\<close>
  have frameD: "evs' ! p = ED ! p \<and> (\<forall>m. T' m \<noteq> Some p)"
    using d2 by (rule gate_loop_frame) (use stepD pq in simp_all)
  show ?thesis
    using frameD stepD ECp ECq len' by (simp add: p_def)
qed

text \<open>
  The pass runs to its end exactly on the tracks whose note events all stay inside the
  table.
\<close>

lemma gate_step_inside:
  assumes "uses_slot (note_slot (E ! i)) (E ! i) \<longrightarrow> note_slot (E ! i) < 2048"
  shows "\<exists>s'. gate_step i (E, T) = Inr s'"
proof (cases "uses_slot (note_slot (E ! i)) (E ! i)")
  case True
  with assms have "\<not> 2048 \<le> unat (status (E ! i) AND 0x0F) * 128 + unat (data1 (E ! i))"
    by (simp add: note_slot_def)
  then show ?thesis
    by (simp add: gate_step_def Let_def split: option.splits)
next
  case False
  then have "status (E ! i) AND 0xF0 \<noteq> 0x90" "status (E ! i) AND 0xF0 \<noteq> 0x80"
    by (simp_all add: uses_slot_def)
  then show ?thesis
    by (simp add: gate_step_def Let_def)
qed

lemma gate_loop_inside:
  assumes "\<forall>j < length E. uses_slot (note_slot (E ! j)) (E ! j) \<longrightarrow> note_slot (E ! j) < 2048"
    and "\<forall>i\<in>set idx. i < length E"
  shows "\<exists>s'. gate_loop idx (E, T) = Inr s'"
  using assms
proof (induction idx arbitrary: E T)
  case Nil
  then show ?case by simp
next
  case (Cons i rest)
  from Cons.prems have "uses_slot (note_slot (E ! i)) (E ! i) \<longrightarrow> note_slot (E ! i) < 2048"
    by simp
  then obtain E1 T1 where 1: "gate_step i (E, T) = Inr (E1, T1)"
    using gate_step_inside [of E i T] by auto
  have len: "length E1 = length E"
    using 1 by (rule gate_step_length)
  have keep: "uses_slot (note_slot (E1 ! j)) (E1 ! j) \<longrightarrow> note_slot (E1 ! j) < 2048"
    if "j < length E1" for j
  proof
    assume u: "uses_slot (note_slot (E1 ! j)) (E1 ! j)"
    have "uses_slot (note_slot (E1 ! j)) (E ! j)"
      using gate_step_not_note [OF 1, of "note_slot (E1 ! j)" j] u by blast
    then have "note_slot (E ! j) = note_slot (E1 ! j)" "uses_slot (note_slot (E ! j)) (E ! j)"
      by (simp_all add: uses_slot_def)
    with Cons.prems(1) that len show "note_slot (E1 ! j) < 2048"
      by metis
  qed
  have "\<exists>s'. gate_loop rest (E1, T1) = Inr s'"
    by (rule Cons.IH) (use keep Cons.prems(2) len in simp_all)
  with 1 show ?case by simp
qed

lemma calc_gates_inside:
  assumes "\<forall>e\<in>set evs. uses_slot (note_slot e) e \<longrightarrow> note_slot e < 2048"
  shows "\<exists>evs'. calc_gates evs = Inr evs'"
proof -
  have "\<exists>s'. gate_loop [0..<length evs] (evs, no_active_notes) = Inr s'"
    by (rule gate_loop_inside) (use assms in simp_all)
  then show ?thesis
    by (auto simp: calc_gates_def)
qed

text \<open>
  From there to the output: whatever order qsort leaves, the track holds a record for
  that Note On whose gate opcodes, overflow flag and gate byte add up to the distance.
\<close>

lemma matched_note_on_gate_in_output:
  fixes on off :: TrackEvent
  defines "on' \<equiv> on\<lparr>gate_time := absolute_time off - absolute_time on\<rparr>"
  assumes "evs = pre @ on # mid @ off # post"
    and "status on AND 0xF0 = 0x90" and "data2 on > 0"
    and "terminating off"
    and "status off AND 0x0F = status on AND 0x0F" and "data1 off = data1 on"
    and "\<forall>e\<in>set mid. \<not> uses_slot (note_slot on) e"
    and "absolute_time on \<le> absolute_time off"
    and "calc_gates evs = Inr evs'"
    and "qsort_result evs' sorted_events"
  shows "evs' ! length pre = on' \<and>
    (\<exists>s1 s2 rest.
       sorted_events = s1 @ on' # s2 \<and>
       write_normal_track f0 sorted_events =
         fst (write_track_event (foldl write_track_event (f0, 0) s1) on') @ rest \<and>
       map_option snd (decode_note_on
           (drop (length (fst (foldl write_track_event (f0, 0) s1)))
              (fst (write_track_event (foldl write_track_event (f0, 0) s1) on')))) =
         Some (unat (absolute_time off) - unat (absolute_time on)))"
proof -
  have sl: "note_slot off = note_slot on"
    using assms(6,7) by (simp add: note_slot_def)
  have g: "evs' ! length pre = on' \<and> length evs' = length evs"
    unfolding on'_def using assms(2-5) sl assms(8,10) by (rule matched_note_on_gate)
  have "length pre < length evs"
    by (simp add: assms(2))
  with g have "on' \<in> set evs'"
    by (metis nth_mem)
  moreover have "set sorted_events = set evs'"
    using assms(11) by (auto simp: qsort_result_def dest: mset_eq_setD)
  ultimately have "on' \<in> set sorted_events" by simp
  then obtain s1 s2 where sp: "sorted_events = s1 @ on' # s2"
    by (auto dest: split_list)
  obtain f1 l1 where st: "foldl write_track_event (f0, 0) s1 = (f1, l1)"
    by (cases "foldl write_track_event (f0, 0) s1")
  obtain rest where tr: "write_normal_track f0 sorted_events =
      fst (write_track_event (foldl write_track_event (f0, 0) s1) on') @ rest"
    using write_normal_track_split [of f0 s1 on' s2] sp by blast
  have ty: "status on' AND 0xF0 = 0x90"
    using assms(3) by (simp add: on'_def)
  have "unat (gate_time on') = unat (absolute_time off) - unat (absolute_time on)"
    using assms(9) by (simp add: on'_def unat_sub)
  with note_on_record_decodes [OF ty, of f1 l1]
  have "map_option snd (decode_note_on (drop (length f1) (fst (write_track_event (f1, l1) on'))))
      = Some (unat (absolute_time off) - unat (absolute_time on))"
    by simp
  with sp tr st g show ?thesis
    by auto
qed


text \<open>
  A Note Off that finds its table position empty stays as it is, and the track holds
  its record: the delta opcodes, the status byte, the key, and the rest of the delta.
\<close>

lemma orphan_note_off_in_output:
  fixes evs :: "TrackEvent list" and q :: nat
  defines "e \<equiv> evs ! q"
  assumes "q < length evs" and "status e AND 0xF0 = 0x80"
    and "gate_loop [0..<q] (evs, no_active_notes) = Inr (Eq, Tq)"
    and "Tq (note_slot e) = None"
    and "calc_gates evs = Inr evs'"
    and "qsort_result evs' sorted_events"
  shows "evs' ! q = e \<and>
    (\<exists>s1 s2 f l rest.
       sorted_events = s1 @ e # s2 \<and>
       foldl write_track_event (f0, 0) s1 = (f, l) \<and>
       write_normal_track f0 sorted_events =
         f @ replicate (unat (absolute_time e - l) div 4096) 0x8F
           @ replicate (unat (absolute_time e - l) mod 4096 div 2048) 0x8E
           @ replicate (unat (absolute_time e - l) mod 2048 div 512) 0x8D
           @ replicate (unat (absolute_time e - l) mod 512 div 256) 0x8C
           @ [status e, data1 e, of_nat (unat (absolute_time e - l) mod 256)] @ rest)"
proof -
  from assms(6) obtain T' where
    gl: "gate_loop [0..<length evs] (evs, no_active_notes) = Inr (evs', T')"
    by (auto simp: calc_gates_def split: sum.splits)
  have sp: "[0..<length evs] = [0..<q] @ q # [Suc q..<length evs]"
    using assms(2) by (intro upt_split_from) simp_all
  have fa: "Eq ! q = evs ! q \<and> (\<forall>n. Tq n \<noteq> Some q)"
    using assms(4) by (rule gate_loop_frame) (simp_all add: no_active_notes_def)
  then have ev: "Eq ! q = e" and nq: "\<forall>n. Tq n \<noteq> Some q" by (simp_all add: e_def)
  from gl have "gate_loop (q # [Suc q..<length evs]) (Eq, Tq) = Inr (evs', T')"
    unfolding sp by (simp add: gate_loop_append assms(4))
  then obtain E2 T2 where c: "gate_step q (Eq, Tq) = Inr (E2, T2)"
    and d: "gate_loop [Suc q..<length evs] (E2, T2) = Inr (evs', T')"
    by (rule gate_loop_ConsE)
  have idle: "E2 = Eq \<and> T2 = Tq"
    using c
  proof (cases rule: gate_step_shape)
    case idle
    then show ?thesis by simp
  next
    case note_on
    with assms(3) ev show ?thesis by simp
  next
    case (note_off p)
    with assms(5) ev show ?thesis by simp
  qed
  have "evs' ! q = E2 ! q \<and> (\<forall>n. T' n \<noteq> Some q)"
    using d by (rule gate_loop_frame) (use idle nq in simp_all)
  with idle ev have keep: "evs' ! q = e" by simp
  have "length evs' = length evs"
    using gl by (rule gate_loop_length)
  with assms(2) keep have "e \<in> set evs'"
    by (metis nth_mem)
  moreover have "set sorted_events = set evs'"
    using assms(7) by (auto simp: qsort_result_def dest: mset_eq_setD)
  ultimately have "e \<in> set sorted_events" by simp
  then obtain s1 s2 where s: "sorted_events = s1 @ e # s2"
    by (auto dest: split_list)
  obtain f l where st: "foldl write_track_event (f0, 0) s1 = (f, l)"
    by (cases "foldl write_track_event (f0, 0) s1")
  obtain rest where "write_normal_track f0 sorted_events =
      fst (write_track_event (foldl write_track_event (f0, 0) s1) e) @ rest"
    using write_normal_track_split [of f0 s1 e s2] s by blast
  then have "write_normal_track f0 sorted_events =
      f @ replicate (unat (absolute_time e - l) div 4096) 0x8F
        @ replicate (unat (absolute_time e - l) mod 4096 div 2048) 0x8E
        @ replicate (unat (absolute_time e - l) mod 2048 div 512) 0x8D
        @ replicate (unat (absolute_time e - l) mod 512 div 256) 0x8C
        @ [status e, data1 e, of_nat (unat (absolute_time e - l) mod 256)] @ rest"
    by (simp only: st note_off_record [OF assms(3)] fst_conv append_assoc)
  with s st keep show ?thesis by blast
qed

section \<open>Key bytes of 128 and more\<close>

text \<open>
  A sorted list with distinct sort keys is the only result qsort can leave for it.
\<close>

lemma qsort_result_unique:
  assumes "qsort_result before after"
    and "sorted_wrt (\<lambda>a b. compare_events a b \<le> 0) before"
    and "distinct (map sort_key before)"
  shows "after = before"
proof -
  from assms(1) have m: "mset after = mset before"
    and s: "sorted (map sort_key after)"
    by (simp_all add: qsort_result_def sorted_by_compare_iff)
  from assms(2) have s': "sorted (map sort_key before)"
    by (simp add: sorted_by_compare_iff)
  from m have "mset (map sort_key after) = mset (map sort_key before)"
    by simp
  then have "sort (map sort_key before) = map sort_key after"
    using s by (rule properties_for_sort)
  with s' have eq: "map sort_key after = map sort_key before"
    by (simp add: sorted_sort_id)
  from m have "set after = set before"
    by (rule mset_eq_setD)
  with assms(3) have "inj_on sort_key (set after \<union> set before)"
    by (simp add: distinct_map)
  with eq show ?thesis
    by (simp add: inj_on_map_eq_map)
qed

lemma qsort_result_sorted_iff:
  assumes "sorted_wrt (\<lambda>a b. compare_events a b \<le> 0) before"
    and "distinct (map sort_key before)"
  shows "qsort_result before after \<longleftrightarrow> after = before"
  using assms qsort_result_unique [of before after]
  by (auto simp: qsort_result_def)

text \<open>
  C1. In \<open>aliased_key_file\<close> the Note On for channel 1, key 72 at tick 0 is matched by
  the Note Off for channel 1, key 72 at tick 96; no other event of the track is on
  channel 1. The Note On between them is for channel 0 and carries the key byte 200.
  The program looks that key up at \<^verbatim>\<open>[0][200]\<close>, which is the element \<^verbatim>\<open>[1][72]\<close> of
  the table: it takes the sounding channel 1 note for an earlier note of that key and
  closes it at tick 10; the Note Off at tick 96 then closes the channel 0 note. The
  events are in sorted order with distinct times, so qsort leaves them as they are.
  In the output, the Note On record for channel 1, key 72 (bytes 14 to 18) reads back
  as delta 0 and gate 10. The distance of the two events is 96.
\<close>

theorem aliased_key_closes_other_note:
  "map_option (\<lambda>r. (events r, tempo_events r)) (read_track aliased_key_file 22 16) =
     Some ([\<lparr>absolute_time = 0, status = 0x91, data1 = 72, data2 = 100, gate_time = 0\<rparr>,
      \<lparr>absolute_time = 10, status = 0x90, data1 = 200, data2 = 100, gate_time = 0\<rparr>,
      \<lparr>absolute_time = 96, status = 0x81, data1 = 72, data2 = 0, gate_time = 0\<rparr>], []) \<and>
   calc_gates
     [\<lparr>absolute_time = 0, status = 0x91, data1 = 72, data2 = 100, gate_time = 0\<rparr>,
      \<lparr>absolute_time = 10, status = 0x90, data1 = 200, data2 = 100, gate_time = 0\<rparr>,
      \<lparr>absolute_time = 96, status = 0x81, data1 = 72, data2 = 0, gate_time = 0\<rparr>] =
   Inr
     [\<lparr>absolute_time = 0, status = 0x91, data1 = 72, data2 = 100, gate_time = 10\<rparr>,
      \<lparr>absolute_time = 10, status = 0x90, data1 = 200, data2 = 100, gate_time = 86\<rparr>,
      \<lparr>absolute_time = 96, status = 0x00, data1 = 72, data2 = 0, gate_time = 0\<rparr>] \<and>
   (\<forall>sorted_events. qsort_result
     [\<lparr>absolute_time = 0, status = 0x91, data1 = 72, data2 = 100, gate_time = 10\<rparr>,
      \<lparr>absolute_time = 10, status = 0x90, data1 = 200, data2 = 100, gate_time = 86\<rparr>,
      \<lparr>absolute_time = 96, status = 0x00, data1 = 72, data2 = 0, gate_time = 0\<rparr>] sorted_events =
     (sorted_events =
     [\<lparr>absolute_time = 0, status = 0x91, data1 = 72, data2 = 100, gate_time = 10\<rparr>,
      \<lparr>absolute_time = 10, status = 0x90, data1 = 200, data2 = 100, gate_time = 86\<rparr>,
      \<lparr>absolute_time = 96, status = 0x00, data1 = 72, data2 = 0, gate_time = 0\<rparr>])) \<and>
   write_seq_file 0x60 []
     [\<lparr>absolute_time = 0, status = 0x91, data1 = 72, data2 = 100, gate_time = 10\<rparr>,
      \<lparr>absolute_time = 10, status = 0x90, data1 = 200, data2 = 100, gate_time = 86\<rparr>,
      \<lparr>absolute_time = 96, status = 0x00, data1 = 72, data2 = 0, gate_time = 0\<rparr>] =
     [0x00, 0x01, 0x00, 0x00, 0x00, 0x06,  0x00, 0x60, 0x00, 0x00, 0x00, 0x08, 0x00, 0x00,
      0x01, 72, 100, 10, 0,  0x00, 200, 100, 86, 10,  0x83] \<and>
   decode_note_on [0x01, 72, 100, 10, 0] = Some (0, 10)"
proof -
  have "map_option (\<lambda>r. (events r, tempo_events r)) (read_track aliased_key_file 22 16) =
     Some ([\<lparr>absolute_time = 0, status = 0x91, data1 = 72, data2 = 100, gate_time = 0\<rparr>,
      \<lparr>absolute_time = 10, status = 0x90, data1 = 200, data2 = 100, gate_time = 0\<rparr>,
      \<lparr>absolute_time = 96, status = 0x81, data1 = 72, data2 = 0, gate_time = 0\<rparr>], [])"
    by code_simp
  moreover have "calc_gates
     [\<lparr>absolute_time = 0, status = 0x91, data1 = 72, data2 = 100, gate_time = 0\<rparr>,
      \<lparr>absolute_time = 10, status = 0x90, data1 = 200, data2 = 100, gate_time = 0\<rparr>,
      \<lparr>absolute_time = 96, status = 0x81, data1 = 72, data2 = 0, gate_time = 0\<rparr>] =
   Inr
     [\<lparr>absolute_time = 0, status = 0x91, data1 = 72, data2 = 100, gate_time = 10\<rparr>,
      \<lparr>absolute_time = 10, status = 0x90, data1 = 200, data2 = 100, gate_time = 86\<rparr>,
      \<lparr>absolute_time = 96, status = 0x00, data1 = 72, data2 = 0, gate_time = 0\<rparr>]"
    by code_simp
  moreover have "qsort_result
     [\<lparr>absolute_time = 0, status = 0x91, data1 = 72, data2 = 100, gate_time = 10\<rparr>,
      \<lparr>absolute_time = 10, status = 0x90, data1 = 200, data2 = 100, gate_time = 86\<rparr>,
      \<lparr>absolute_time = 96, status = 0x00, data1 = 72, data2 = 0, gate_time = 0\<rparr>] sorted_events =
     (sorted_events =
     [\<lparr>absolute_time = 0, status = 0x91, data1 = 72, data2 = 100, gate_time = 10\<rparr>,
      \<lparr>absolute_time = 10, status = 0x90, data1 = 200, data2 = 100, gate_time = 86\<rparr>,
      \<lparr>absolute_time = 96, status = 0x00, data1 = 72, data2 = 0, gate_time = 0\<rparr>])" for sorted_events
    by (rule qsort_result_sorted_iff)
      (simp_all add: compare_events_def sort_key_def terminating_def)
  moreover have "write_seq_file 0x60 []
     [\<lparr>absolute_time = 0, status = 0x91, data1 = 72, data2 = 100, gate_time = 10\<rparr>,
      \<lparr>absolute_time = 10, status = 0x90, data1 = 200, data2 = 100, gate_time = 86\<rparr>,
      \<lparr>absolute_time = 96, status = 0x00, data1 = 72, data2 = 0, gate_time = 0\<rparr>] =
     [0x00, 0x01, 0x00, 0x00, 0x00, 0x06,  0x00, 0x60, 0x00, 0x00, 0x00, 0x08, 0x00, 0x00,
      0x01, 72, 100, 10, 0,  0x00, 200, 100, 86, 10,  0x83]"
    by code_simp
  moreover have "decode_note_on [0x01, 72, 100, 10, 0] = Some (0, 10)"
    by code_simp
  ultimately show ?thesis
    by blast
qed

text \<open>
  C10. In \<open>aliased_orphan_file\<close> the Note Off for channel 1, key 72 at tick 10 is an
  orphan: the only other note event is a Note On for channel 0. That Note On carries
  the key byte 200 and is entered at \<^verbatim>\<open>[0][200]\<close>, the element \<^verbatim>\<open>[1][72]\<close>. The Note
  Off finds it there, takes it for its Note On, and has its status set to 0. The
  track writer skips it: the event track of the output (from byte 14) holds the Note
  On record and the end marker 0x83, and the status byte 0x81 is nowhere in the
  output.
\<close>

theorem aliased_slot_removes_orphan:
  "map_option (\<lambda>r. (events r, tempo_events r)) (read_track aliased_orphan_file 22 12) =
     Some ([\<lparr>absolute_time = 0, status = 0x90, data1 = 200, data2 = 100, gate_time = 0\<rparr>,
      \<lparr>absolute_time = 10, status = 0x81, data1 = 72, data2 = 0, gate_time = 0\<rparr>], []) \<and>
   calc_gates
     [\<lparr>absolute_time = 0, status = 0x90, data1 = 200, data2 = 100, gate_time = 0\<rparr>,
      \<lparr>absolute_time = 10, status = 0x81, data1 = 72, data2 = 0, gate_time = 0\<rparr>] =
   Inr
     [\<lparr>absolute_time = 0, status = 0x90, data1 = 200, data2 = 100, gate_time = 10\<rparr>,
      \<lparr>absolute_time = 10, status = 0x00, data1 = 72, data2 = 0, gate_time = 0\<rparr>] \<and>
   (\<forall>sorted_events. qsort_result
     [\<lparr>absolute_time = 0, status = 0x90, data1 = 200, data2 = 100, gate_time = 10\<rparr>,
      \<lparr>absolute_time = 10, status = 0x00, data1 = 72, data2 = 0, gate_time = 0\<rparr>] sorted_events =
     (sorted_events =
     [\<lparr>absolute_time = 0, status = 0x90, data1 = 200, data2 = 100, gate_time = 10\<rparr>,
      \<lparr>absolute_time = 10, status = 0x00, data1 = 72, data2 = 0, gate_time = 0\<rparr>])) \<and>
   write_seq_file 0x60 []
     [\<lparr>absolute_time = 0, status = 0x90, data1 = 200, data2 = 100, gate_time = 10\<rparr>,
      \<lparr>absolute_time = 10, status = 0x00, data1 = 72, data2 = 0, gate_time = 0\<rparr>] =
     [0x00, 0x01, 0x00, 0x00, 0x00, 0x06,  0x00, 0x60, 0x00, 0x00, 0x00, 0x08, 0x00, 0x00,
      0x00, 200, 100, 10, 0,  0x83] \<and>
   0x81 \<notin> set (write_seq_file 0x60 []
     [\<lparr>absolute_time = 0, status = 0x90, data1 = 200, data2 = 100, gate_time = 10\<rparr>,
      \<lparr>absolute_time = 10, status = 0x00, data1 = 72, data2 = 0, gate_time = 0\<rparr>])"
proof -
  have "map_option (\<lambda>r. (events r, tempo_events r)) (read_track aliased_orphan_file 22 12) =
     Some ([\<lparr>absolute_time = 0, status = 0x90, data1 = 200, data2 = 100, gate_time = 0\<rparr>,
      \<lparr>absolute_time = 10, status = 0x81, data1 = 72, data2 = 0, gate_time = 0\<rparr>], [])"
    by code_simp
  moreover have "calc_gates
     [\<lparr>absolute_time = 0, status = 0x90, data1 = 200, data2 = 100, gate_time = 0\<rparr>,
      \<lparr>absolute_time = 10, status = 0x81, data1 = 72, data2 = 0, gate_time = 0\<rparr>] =
   Inr
     [\<lparr>absolute_time = 0, status = 0x90, data1 = 200, data2 = 100, gate_time = 10\<rparr>,
      \<lparr>absolute_time = 10, status = 0x00, data1 = 72, data2 = 0, gate_time = 0\<rparr>]"
    by code_simp
  moreover have "qsort_result
     [\<lparr>absolute_time = 0, status = 0x90, data1 = 200, data2 = 100, gate_time = 10\<rparr>,
      \<lparr>absolute_time = 10, status = 0x00, data1 = 72, data2 = 0, gate_time = 0\<rparr>] sorted_events =
     (sorted_events =
     [\<lparr>absolute_time = 0, status = 0x90, data1 = 200, data2 = 100, gate_time = 10\<rparr>,
      \<lparr>absolute_time = 10, status = 0x00, data1 = 72, data2 = 0, gate_time = 0\<rparr>])" for sorted_events
    by (rule qsort_result_sorted_iff)
      (simp_all add: compare_events_def sort_key_def terminating_def)
  moreover have "write_seq_file 0x60 []
     [\<lparr>absolute_time = 0, status = 0x90, data1 = 200, data2 = 100, gate_time = 10\<rparr>,
      \<lparr>absolute_time = 10, status = 0x00, data1 = 72, data2 = 0, gate_time = 0\<rparr>] =
     [0x00, 0x01, 0x00, 0x00, 0x00, 0x06,  0x00, 0x60, 0x00, 0x00, 0x00, 0x08, 0x00, 0x00,
      0x00, 200, 100, 10, 0,  0x83]"
    by code_simp
  moreover have "0x81 \<notin> set (write_seq_file 0x60 []
     [\<lparr>absolute_time = 0, status = 0x90, data1 = 200, data2 = 100, gate_time = 10\<rparr>,
      \<lparr>absolute_time = 10, status = 0x00, data1 = 72, data2 = 0, gate_time = 0\<rparr>])"
    by code_simp
  ultimately show ?thesis
    by blast
qed

section \<open>A long meta event in front of the tempo track\<close>

text \<open>
  C2. The track of \<open>long_meta_file\<close> (positions 22 to 286) holds a meta event of type
  0x7F whose length field, at position 25, reads 256, and behind its 256 data bytes
  only End of Track: the file has no Set Tempo event. The reader keeps the low 8 bits
  of the length, skips 0 bytes, and reads the data bytes as events; they begin with
  00 FF 51 03 07 A1 20, which it records as a tempo event of 500000. The loop ends at
  position 287 with no event in the list. The tempo track that is written (bytes 14
  to 29 of the output) has two entries of 500000 where it should have none.
\<close>

theorem long_meta_payload_becomes_tempo_track:
  "take 3 (drop 22 long_meta_file) = [0x00, 0xFF, 0x7F] \<and>
   read_variable_length \<lparr>bytes = long_meta_file, pos = 25, eof = False\<rparr> =
     (256, \<lparr>bytes = long_meta_file, pos = 27, eof = False\<rparr>) \<and>
   drop (27 + 256) long_meta_file = [0x00, 0xFF, 0x2F, 0x00] \<and>
   map_option (\<lambda>r. (events r, tempo_events r, pos (midi r)))
       (read_track long_meta_file 22 265) =
     Some ([], [\<lparr>step_time = 0, mspb = 500000\<rparr>], 287) \<and>
   synthesize_tempo [\<lparr>step_time = 0, mspb = 500000\<rparr>] [] =
     [\<lparr>step_time = 0, mspb = 500000\<rparr>, \<lparr>step_time = 0, mspb = 500000\<rparr>] \<and>
   write_tempo_track (synthesize_tempo [\<lparr>step_time = 0, mspb = 500000\<rparr>] []) =
     [0, 0, 0, 0,  0x00, 0x07, 0xA1, 0x20,  0, 0, 0, 0,  0x00, 0x07, 0xA1, 0x20] \<and>
   take 16 (drop 14 (write_seq_file 0x60 [\<lparr>step_time = 0, mspb = 500000\<rparr>] [])) =
     [0, 0, 0, 0,  0x00, 0x07, 0xA1, 0x20,  0, 0, 0, 0,  0x00, 0x07, 0xA1, 0x20]"
  by code_simp

text \<open>
  C7. The same file, seen from the header of the output: \<open>long_meta_file\<close> has no Set
  Tempo event, its track being a 256-byte meta event of type 0x7F and End of Track,
  but the reader records a tempo event from the data bytes it did not skip. The header
  (bytes 6 to 13 of the output) then gives the tempo count 2 and the loop offset 16,
  not 0 and 0; the data offset is 24.
\<close>

theorem long_meta_payload_counted_in_header:
  "map_option (\<lambda>r. (events r, tempo_events r)) (read_track long_meta_file 22 265) =
     Some ([], [\<lparr>step_time = 0, mspb = 500000\<rparr>]) \<and>
   calc_gates [] = Inr [] \<and>
   (\<forall>sorted_events. qsort_result [] sorted_events = (sorted_events = [])) \<and>
   write_seq_file 0x60 [\<lparr>step_time = 0, mspb = 500000\<rparr>] [] =
     [0x00, 0x01, 0x00, 0x00, 0x00, 0x06,  0x00, 0x60, 0x00, 0x02, 0x00, 0x18, 0x00, 0x10,
      0, 0, 0, 0, 0x00, 0x07, 0xA1, 0x20,  0, 0, 0, 0, 0x00, 0x07, 0xA1, 0x20,  0x83] \<and>
   be16 (drop 8 (write_seq_file 0x60 [\<lparr>step_time = 0, mspb = 500000\<rparr>] [])) = 2 \<and>
   be16 (drop 10 (write_seq_file 0x60 [\<lparr>step_time = 0, mspb = 500000\<rparr>] [])) = 24 \<and>
   be16 (drop 12 (write_seq_file 0x60 [\<lparr>step_time = 0, mspb = 500000\<rparr>] [])) = 16"
proof -
  have "map_option (\<lambda>r. (events r, tempo_events r)) (read_track long_meta_file 22 265) =
     Some ([], [\<lparr>step_time = 0, mspb = 500000\<rparr>])"
    by code_simp
  moreover have "calc_gates [] = Inr []"
    by code_simp
  moreover have "qsort_result [] sorted_events = (sorted_events = [])" for sorted_events
    by (auto simp: qsort_result_def)
  moreover have "write_seq_file 0x60 [\<lparr>step_time = 0, mspb = 500000\<rparr>] [] =
     [0x00, 0x01, 0x00, 0x00, 0x00, 0x06,  0x00, 0x60, 0x00, 0x02, 0x00, 0x18, 0x00, 0x10,
      0, 0, 0, 0, 0x00, 0x07, 0xA1, 0x20,  0, 0, 0, 0, 0x00, 0x07, 0xA1, 0x20,  0x83]"
    by code_simp
  moreover have "be16 (drop 8 (write_seq_file 0x60 [\<lparr>step_time = 0, mspb = 500000\<rparr>] [])) = 2"
    by code_simp
  moreover have "be16 (drop 10 (write_seq_file 0x60 [\<lparr>step_time = 0, mspb = 500000\<rparr>] [])) = 24"
    by code_simp
  moreover have "be16 (drop 12 (write_seq_file 0x60 [\<lparr>step_time = 0, mspb = 500000\<rparr>] [])) = 16"
    by code_simp
  ultimately show ?thesis
    by blast
qed

end
